theory Spec2Isabelle
  imports Main
begin

text \<open>
  A model of the two API routes of the repository: the chat route
  \<^verbatim>\<open>src/app/api/chat/route.ts\<close>, which drives a run of the remote assistant and serves its
  tool calls, and the search route, which the chat route calls for a \<^verbatim>\<open>web_search\<close> tool
  call. Each handler is a function from the world outside it, the environment variables and
  the request to the response and the list of calls it issued, in their order. A rejected
  promise and a \<^verbatim>\<open>throw\<close> are the \<open>Inl\<close> of a sum. Every \<^verbatim>\<open>await\<close> is taken to settle;
  the output of \<^verbatim>\<open>console.log\<close> and \<^verbatim>\<open>console.error\<close> is not part of the model.
\<close>

section \<open>Values of the JavaScript runtime\<close>

text \<open>
  A JavaScript string is a sequence of UTF-16 code units. The citation markers that the
  chat route strips are written with code units beyond ASCII, so strings are lists of code
  units; \<open>lit\<close> embeds an ASCII literal of the source.
\<close>

type_synonym js_string = "nat list"

definition lit :: "string \<Rightarrow> js_string" where
  "lit s = map of_char s"

text \<open>
  A JSON value, as \<^verbatim>\<open>JSON.parse\<close> and \<^verbatim>\<open>Response.json()\<close> produce it. An object is
  the list of its own properties (each key once). Numbers are the integers; \<open>undefined\<close>
  is not a JSON value and is the \<open>None\<close> of \<open>json option\<close>.
\<close>

datatype json =
    JNull
  | JBool bool
  | JNum int
  | JStr js_string
  | JArr "json list"
  | JObj "(js_string \<times> json) list"

text \<open>The text \<^verbatim>\<open>JSON.stringify(v)\<close> yields, kept as the value it encodes.\<close>

datatype json_text = JSON_stringify json

text \<open>
  What a \<^verbatim>\<open>throw\<close> or a rejected promise carries: an \<^verbatim>\<open>Error\<close> instance with its
  \<^verbatim>\<open>message\<close> and, for an axios error, \<^verbatim>\<open>response?.data?.error?.message\<close>; or a value
  that is no \<^verbatim>\<open>Error\<close> and has neither property.
\<close>

datatype thrown =
    ErrorObj js_string "js_string option"
  | NonError

text \<open>Truthiness: \<^verbatim>\<open>null\<close>, \<^verbatim>\<open>false\<close>, \<^verbatim>\<open>0\<close> and \<^verbatim>\<open>""\<close> are falsy, every array and object is truthy.\<close>

fun truthy :: "json \<Rightarrow> bool" where
  "truthy JNull = False"
| "truthy (JBool b) = b"
| "truthy (JNum n) = (n \<noteq> 0)"
| "truthy (JStr s) = (s \<noteq> [])"
| "truthy (JArr xs) = True"
| "truthy (JObj kvs) = True"

text \<open>\<^verbatim>\<open>a || b\<close> where \<^verbatim>\<open>a\<close> may be \<open>undefined\<close>.\<close>

fun js_or :: "json option \<Rightarrow> json \<Rightarrow> json" where
  "js_or None d = d"
| "js_or (Some v) d = (if truthy v then v else d)"

text \<open>\<^verbatim>\<open>s || d\<close> on an optional string: \<open>undefined\<close> and \<^verbatim>\<open>""\<close> are falsy.\<close>

fun str_or :: "js_string option \<Rightarrow> js_string \<Rightarrow> js_string" where
  "str_or None d = d"
| "str_or (Some s) d = (if s \<noteq> [] then s else d)"

text \<open>
  Reading a property \<^verbatim>\<open>v.k\<close> of a parsed JSON value: \<^verbatim>\<open>null.k\<close> throws a
  \<^verbatim>\<open>TypeError\<close>, an object yields its property or \<open>undefined\<close>, and the property names
  read in this program are \<open>undefined\<close> on numbers, booleans, strings and arrays.
\<close>

fun get_prop :: "json \<Rightarrow> js_string \<Rightarrow> thrown + json option" where
  "get_prop JNull k =
     Inl (ErrorObj (lit ''Cannot read properties of null (reading '' @ [39] @ k @ [39] @ lit '')'') None)"
| "get_prop (JObj kvs) k = Inr (map_of kvs k)"
| "get_prop v k = Inr None"

text \<open>
  An object literal handed to \<^verbatim>\<open>JSON.stringify\<close>: a property whose value is
  \<open>undefined\<close> is left out of the encoded object.
\<close>

fun obj :: "(js_string \<times> json option) list \<Rightarrow> (js_string \<times> json) list" where
  "obj [] = []"
| "obj ((k, None) # kvs) = obj kvs"
| "obj ((k, Some v) # kvs) = (k, v) # obj kvs"

text \<open>A number in a template literal: its decimal digits.\<close>

fun show_nat :: "nat \<Rightarrow> js_string" where
  "show_nat n = (if n < 10 then [48 + n] else show_nat (n div 10) @ [48 + n mod 10])"

declare show_nat.simps [simp del]

section \<open>The chat route: data\<close>

text \<open>
  \<^verbatim>\<open>interface ToolCall { id; function: { name; arguments } }\<close> of \<^verbatim>\<open>chat/route.ts\<close>:
  \<open>tc_id\<close> is \<^verbatim>\<open>id\<close>, \<open>fn_name\<close> is \<^verbatim>\<open>function.name\<close>, \<open>fn_arguments\<close> is
  \<^verbatim>\<open>function.arguments\<close>.
\<close>

record ToolCall =
  tc_id :: js_string
  fn_name :: js_string
  fn_arguments :: js_string

text \<open>
  One element of \<^verbatim>\<open>tool_outputs\<close>: \<^verbatim>\<open>{ tool_call_id, output }\<close>; the field \<open>output'\<close> is
  \<^verbatim>\<open>output\<close>.
\<close>

record ToolOutput =
  tool_call_id :: js_string
  output' :: json_text

type_synonym http_headers = "(js_string \<times> js_string) list"

text \<open>
  The data of the run-status response that the route reads: \<^verbatim>\<open>data.status\<close> and
  \<^verbatim>\<open>data.required_action?.submit_tool_outputs?.tool_calls\<close>.
\<close>

record run_data =
  run_status :: js_string
  run_tool_calls :: "ToolCall list option"

text \<open>
  A message of the thread's message list: \<^verbatim>\<open>role\<close> and \<^verbatim>\<open>content\<close>, each content part
  with its \<^verbatim>\<open>text?.value\<close> (\<open>None\<close> for a part without text); a message without
  \<^verbatim>\<open>content\<close> has the empty list.
\<close>

record Message =
  msg_role :: js_string
  msg_content :: "js_string option list"

text \<open>A \<^verbatim>\<open>fetch\<close> response: \<^verbatim>\<open>ok\<close>, \<^verbatim>\<open>status\<close>, and what \<^verbatim>\<open>text()\<close> and \<^verbatim>\<open>json()\<close> resolve to.\<close>

record fetch_response =
  resp_ok :: bool
  resp_status :: nat
  resp_text :: "thrown + js_string"
  resp_json :: "thrown + json"

text \<open>
  Every effect of the two routes, in the order it is issued. The constructors stand for:
  \<^item> \<open>PostThreads\<close>: \<^verbatim>\<open>axios.post(".../v1/threads", {}, {headers})\<close>;
  \<^item> \<open>PostMessage tid content\<close>: \<^verbatim>\<open>axios.post(".../threads/${tid}/messages", {role: "user", content})\<close>;
  \<^item> \<open>PostRun tid aid\<close>: \<^verbatim>\<open>axios.post(".../threads/${tid}/runs", {assistant_id})\<close>;
  \<^item> \<open>Sleep ms\<close>: \<^verbatim>\<open>await new Promise(res => setTimeout(res, ms))\<close>;
  \<^item> \<open>GetRun tid rid\<close>: \<^verbatim>\<open>axios.get(".../threads/${tid}/runs/${rid}")\<close>;
  \<^item> \<open>FetchSearch url body\<close>: \<^verbatim>\<open>fetch(url, {method: "POST", body: JSON.stringify(body)})\<close>;
  \<^item> \<open>PostSubmit tid rid outs\<close>: \<^verbatim>\<open>axios.post(".../runs/${rid}/submit_tool_outputs", {tool_outputs})\<close>;
  \<^item> \<open>PostCancel tid rid\<close>: \<^verbatim>\<open>axios.post(".../runs/${rid}/cancel", {})\<close>;
  \<^item> \<open>GetMessages tid\<close>: \<^verbatim>\<open>axios.get(".../threads/${tid}/messages")\<close>;
  \<^item> \<open>FetchTavily body\<close>: \<^verbatim>\<open>fetch("https://api.tavily.com/search", ...)\<close> of the search route.
\<close>

datatype call =
    PostThreads http_headers
  | PostMessage js_string js_string http_headers
  | PostRun js_string js_string http_headers
  | Sleep nat
  | GetRun js_string js_string http_headers
  | FetchSearch js_string json
  | PostSubmit js_string js_string "ToolOutput list" http_headers
  | PostCancel js_string js_string http_headers
  | GetMessages js_string http_headers
  | FetchTavily json

text \<open>
  The world outside the route. Each remote operation answers from the calls issued so far
  (the last one being the call it answers): \<open>Inl\<close> is a rejected promise, \<open>Inr\<close> the part
  of the response the route reads. \<open>JSON_parse\<close> is the runtime's \<^verbatim>\<open>JSON.parse\<close>.
\<close>

record world =
  post_threads :: "call list \<Rightarrow> thrown + js_string"
  post_message :: "call list \<Rightarrow> thrown + unit"
  post_run :: "call list \<Rightarrow> thrown + js_string"
  get_run :: "call list \<Rightarrow> thrown + run_data"
  JSON_parse :: "js_string \<Rightarrow> thrown + json"
  fetch_search :: "call list \<Rightarrow> thrown + fetch_response"
  post_submit :: "call list \<Rightarrow> thrown + unit"
  post_cancel :: "call list \<Rightarrow> thrown + unit"
  get_messages :: "call list \<Rightarrow> thrown + Message list"
  fetch_tavily :: "call list \<Rightarrow> thrown + fetch_response"

text \<open>\<^verbatim>\<open>process.env\<close>: the variables the routes read.\<close>

record process_env =
  OPENAI_API_KEY :: "js_string option"
  OPENAI_ASSISTANT_ID :: "js_string option"
  OPENAI_ORGANIZATION :: "js_string option"
  VERCEL_URL :: "js_string option"
  TAVILY_API_KEY :: "js_string option"

text \<open>Issuing a call: it joins the trace, and the world answers.\<close>

definition perform :: "(call list \<Rightarrow> thrown + 'a) \<Rightarrow> call \<Rightarrow> call list \<Rightarrow> (thrown + 'a) \<times> call list" where
  "perform remote c tr = (remote (tr @ [c]), tr @ [c])"

section \<open>The chat route: tool dispatch (lines 94 to 158)\<close>

text \<open>\<^verbatim>\<open>error instanceof Error ? error.message : "Unknown error"\<close>\<close>

fun errorMessage :: "thrown \<Rightarrow> js_string" where
  "errorMessage (ErrorObj m r) = m"
| "errorMessage NonError = lit ''Unknown error''"

text \<open>
  \<^verbatim>\<open>process.env.VERCEL_URL ? `https://${process.env.VERCEL_URL}` : "http://localhost:3000"\<close>
\<close>

definition baseUrl :: "process_env \<Rightarrow> js_string" where
  "baseUrl env =
     (case VERCEL_URL env of
        None \<Rightarrow> lit ''http://localhost:3000''
      | Some u \<Rightarrow> if u \<noteq> [] then lit ''https://'' @ u else lit ''http://localhost:3000'')"

text \<open>The body of the request to the search endpoint, from the decoded arguments (lines 112 to 116).\<close>

definition search_body :: "json option \<Rightarrow> json option \<Rightarrow> json option \<Rightarrow> json" where
  "search_body q mr doms =
     JObj (obj [(lit ''query'', q),
                (lit ''max_results'', Some (js_or mr (JNum 3))),
                (lit ''include_domains'', Some (js_or doms (JArr [JStr (lit ''ey.com'')])))])"

text \<open>
  The \<^verbatim>\<open>try\<close> block of the \<^verbatim>\<open>web_search\<close> handler (lines 98 to 138): \<open>Inl\<close> is what it
  throws, \<open>Inr\<close> is \<^verbatim>\<open>formattedResults\<close>. The first read of \<^verbatim>\<open>args.query\<close> is the one of
  the \<^verbatim>\<open>console.log\<close> at line 100; the first read of \<^verbatim>\<open>searchData.results\<close> is the one at
  line 126.
\<close>

definition search_attempt :: "world \<Rightarrow> process_env \<Rightarrow> ToolCall \<Rightarrow> call list \<Rightarrow> (thrown + json) \<times> call list" where
  "search_attempt w env toolCall tr =
     (case JSON_parse w (fn_arguments toolCall) of
        Inl e \<Rightarrow> (Inl e, tr)
      | Inr args \<Rightarrow>
          (case get_prop args (lit ''query'') of
             Inl e \<Rightarrow> (Inl e, tr)
           | Inr query \<Rightarrow>
               (let max_results = (case get_prop args (lit ''max_results'') of Inl e \<Rightarrow> None | Inr v \<Rightarrow> v);
                    include_domains = (case get_prop args (lit ''include_domains'') of Inl e \<Rightarrow> None | Inr v \<Rightarrow> v)
                in case perform (fetch_search w)
                          (FetchSearch (baseUrl env @ lit ''/api/search'')
                             (search_body query max_results include_domains)) tr of
                     (Inl e, tr1) \<Rightarrow> (Inl e, tr1)
                   | (Inr searchResponse, tr1) \<Rightarrow>
                       if \<not> resp_ok searchResponse then
                         (case resp_text searchResponse of
                            Inl e \<Rightarrow> (Inl e, tr1)
                          | Inr errorText \<Rightarrow>
                              (Inl (ErrorObj (lit ''Search failed: '' @ show_nat (resp_status searchResponse)) None), tr1))
                       else
                         (case resp_json searchResponse of
                            Inl e \<Rightarrow> (Inl e, tr1)
                          | Inr searchData \<Rightarrow>
                              (case get_prop searchData (lit ''results'') of
                                 Inl e \<Rightarrow> (Inl e, tr1)
                               | Inr results \<Rightarrow>
                                   (let answer = (case get_prop searchData (lit ''answer'') of Inl e \<Rightarrow> None | Inr v \<Rightarrow> v)
                                    in (Inr (JObj (obj [(lit ''results'', Some (js_or results (JArr []))),
                                                        (lit ''answer'', Some (js_or answer JNull)),
                                                        (lit ''query'', query)])), tr1)))))))"

text \<open>The callback of \<^verbatim>\<open>toolCalls.map\<close> (lines 95 to 157).\<close>

definition handle_tool_call :: "world \<Rightarrow> process_env \<Rightarrow> ToolCall \<Rightarrow> call list \<Rightarrow> ToolOutput \<times> call list" where
  "handle_tool_call w env toolCall tr =
     (if fn_name toolCall = lit ''web_search'' then
        (case search_attempt w env toolCall tr of
           (Inr formattedResults, tr1) \<Rightarrow>
             (\<lparr>tool_call_id = tc_id toolCall, output' = JSON_stringify formattedResults\<rparr>, tr1)
         | (Inl error, tr1) \<Rightarrow>
             (\<lparr>tool_call_id = tc_id toolCall,
               output' = JSON_stringify (JObj [(lit ''error'', JStr (errorMessage error)),
                                              (lit ''results'', JArr [])])\<rparr>, tr1))
      else
        (\<lparr>tool_call_id = tc_id toolCall,
          output' = JSON_stringify (JObj [(lit ''error'', JStr (lit ''Unknown function''))])\<rparr>, tr))"

text \<open>
  \<^verbatim>\<open>Promise.all(toolCalls.map(...))\<close>: each callback runs up to its \<^verbatim>\<open>fetch\<close> in list
  order, no callback reads what another one wrote, and the outputs come back in the order of
  the calls. The world answers each \<^verbatim>\<open>fetch\<close> as it pleases, so serving the calls one after
  the other loses no behaviour.
\<close>

fun dispatch :: "world \<Rightarrow> process_env \<Rightarrow> ToolCall list \<Rightarrow> call list \<Rightarrow> ToolOutput list \<times> call list" where
  "dispatch w env [] tr = ([], tr)"
| "dispatch w env (toolCall # rest) tr =
     (case handle_tool_call w env toolCall tr of
        (out, tr1) \<Rightarrow> (case dispatch w env rest tr1 of (outs, tr2) \<Rightarrow> (out # outs, tr2)))"

section \<open>The chat route: stripping citation markers (line 212)\<close>

text \<open>
  \<^verbatim>\<open>value.replace(/<LB>\d+:\d+<DAGGER>[^<RB>]+<RB>/g, "")\<close>, where \<^verbatim>\<open><LB>\<close> is the
  code unit U+3010, \<^verbatim>\<open><DAGGER>\<close> is U+2020 and \<^verbatim>\<open><RB>\<close> is U+3011.
\<close>

definition LB :: nat where "LB = 12304"
definition RB :: nat where "RB = 12305"
definition DAGGER :: nat where "DAGGER = 8224"
definition COLON :: nat where "COLON = 58"

text \<open>\<^verbatim>\<open>\d\<close> without the \<^verbatim>\<open>u\<close> and \<^verbatim>\<open>i\<close> flags: the ten ASCII digits.\<close>

definition is_digit :: "nat \<Rightarrow> bool" where
  "is_digit c = (48 \<le> c \<and> c \<le> 57)"

text \<open>
  A match of the pattern that starts at the head of the string: \<open>Some\<close> of what follows
  the match. Each \<^verbatim>\<open>+\<close> is greedy and is followed by a code unit outside its own class
  (\<^verbatim>\<open>:\<close> and the dagger are no digits, and the closing bracket is what \<^verbatim>\<open>[^<RB>]\<close>
  excludes), so giving back a code unit never helps: the match takes each longest run, and
  it is the only match at that position.
\<close>

definition match_at :: "js_string \<Rightarrow> js_string option" where
  "match_at s =
     (case s of
        [] \<Rightarrow> None
      | c # r0 \<Rightarrow>
          if c = LB \<and> takeWhile is_digit r0 \<noteq> [] then
            (case dropWhile is_digit r0 of
               [] \<Rightarrow> None
             | c1 # r1 \<Rightarrow>
                 if c1 = COLON \<and> takeWhile is_digit r1 \<noteq> [] then
                   (case dropWhile is_digit r1 of
                      [] \<Rightarrow> None
                    | c2 # r2 \<Rightarrow>
                        if c2 = DAGGER \<and> takeWhile (\<lambda>x. x \<noteq> RB) r2 \<noteq> [] then
                          (case dropWhile (\<lambda>x. x \<noteq> RB) r2 of
                             [] \<Rightarrow> None
                           | c3 # r3 \<Rightarrow> Some r3)
                        else None)
                 else None)
          else None)"

lemma match_at_shorter: "match_at s = Some r \<Longrightarrow> length r < length s"
proof -
  have d: "length (dropWhile P xs) \<le> length xs" for P and xs :: "nat list"
    by (induction xs) auto
  assume "match_at s = Some r"
  then obtain c r0 c1 r1 c2 r2 c3
    where s: "s = c # r0"
      and a: "dropWhile is_digit r0 = c1 # r1"
      and b: "dropWhile is_digit r1 = c2 # r2"
      and e: "dropWhile (\<lambda>x. x \<noteq> RB) r2 = c3 # r"
    by (auto simp: match_at_def split: list.splits if_splits)
  from d [of is_digit r0] a have "length r1 < length r0" by simp
  moreover from d [of is_digit r1] b have "length r2 < length r1" by simp
  moreover from d [of "\<lambda>x. x \<noteq> RB" r2] e have "length r < length r2" by simp
  ultimately show ?thesis using s by simp
qed

text \<open>
  The replacement with the \<^verbatim>\<open>g\<close> flag: one scan from the left; a match is dropped and
  the scan goes on behind it, any other code unit is kept.
\<close>

function strip_citations :: "js_string \<Rightarrow> js_string" where
  "strip_citations [] = []"
| "strip_citations (c # cs) =
     (case match_at (c # cs) of
        Some rest \<Rightarrow> strip_citations rest
      | None \<Rightarrow> c # strip_citations cs)"
  by pat_completeness auto
termination
  by (relation "measure length") (auto dest: match_at_shorter)

text \<open>Whether the pattern matches somewhere in the string.\<close>

fun has_marker :: "js_string \<Rightarrow> bool" where
  "has_marker [] = False"
| "has_marker (c # cs) = (match_at (c # cs) \<noteq> None \<or> has_marker cs)"

section \<open>The chat route: the handler (lines 18 to 252)\<close>

text \<open>The request body the route destructures: \<^verbatim>\<open>{ input, threadId }\<close>.\<close>

record chat_request =
  req_input :: js_string
  req_threadId :: "js_string option"

text \<open>
  A \<^verbatim>\<open>NextResponse\<close>: its status, its JSON body and the headers the route sets on it.
\<close>

record http_response =
  res_status :: nat
  res_body :: json
  res_headers :: http_headers

definition NextResponse_json :: "json \<Rightarrow> nat \<Rightarrow> http_response" where
  "NextResponse_json body st = \<lparr>res_status = st, res_body = body, res_headers = []\<rparr>"

text \<open>\<^verbatim>\<open>response.headers.set(k, v)\<close>\<close>

definition headers_set :: "js_string \<Rightarrow> js_string \<Rightarrow> http_response \<Rightarrow> http_response" where
  "headers_set k v r = r\<lparr>res_headers := (k, v) # filter (\<lambda>kv. fst kv \<noteq> k) (res_headers r)\<rparr>"

text \<open>The value of an optional string when it is truthy.\<close>

fun truthy_str :: "js_string option \<Rightarrow> js_string option" where
  "truthy_str None = None"
| "truthy_str (Some s) = (if s = [] then None else Some s)"

text \<open>Lines 30 to 37.\<close>

definition build_headers :: "js_string \<Rightarrow> process_env \<Rightarrow> http_headers" where
  "build_headers key env =
     [(lit ''Authorization'', lit ''Bearer '' @ key),
      (lit ''Content-Type'', lit ''application/json''),
      (lit ''OpenAI-Beta'', lit ''assistants=v2'')]
     @ (case truthy_str (OPENAI_ORGANIZATION env) of
          None \<Rightarrow> []
        | Some org \<Rightarrow> [(lit ''OpenAI-Organization'', org)])"

text \<open>Lines 39 to 51: get or create the thread.\<close>

definition get_or_create_thread ::
    "world \<Rightarrow> http_headers \<Rightarrow> js_string option \<Rightarrow> call list \<Rightarrow> (thrown + js_string) \<times> call list" where
  "get_or_create_thread w headers threadId tr =
     (case truthy_str threadId of
        None \<Rightarrow> perform (post_threads w) (PostThreads headers) tr
      | Some currentThreadId \<Rightarrow> (Inr currentThreadId, tr))"

text \<open>Lines 39 to 68: the thread, the user message, the run. The result is the thread and run ids.\<close>

definition start_run ::
    "world \<Rightarrow> http_headers \<Rightarrow> js_string \<Rightarrow> chat_request \<Rightarrow> (thrown + js_string \<times> js_string) \<times> call list" where
  "start_run w headers ASSISTANT_ID rq =
     (case get_or_create_thread w headers (req_threadId rq) [] of
        (Inl e, tr1) \<Rightarrow> (Inl e, tr1)
      | (Inr currentThreadId, tr1) \<Rightarrow>
          (case perform (post_message w) (PostMessage currentThreadId (req_input rq) headers) tr1 of
             (Inl e, tr2) \<Rightarrow> (Inl e, tr2)
           | (Inr u, tr2) \<Rightarrow>
               (case perform (post_run w) (PostRun currentThreadId ASSISTANT_ID headers) tr2 of
                  (Inl e, tr3) \<Rightarrow> (Inl e, tr3)
                | (Inr runId, tr3) \<Rightarrow> (Inr (currentThreadId, runId), tr3))))"

definition maxRetries :: nat where
  "maxRetries = 200"

text \<open>
  Lines 87 to 170, after \<^verbatim>\<open>status = statusRes.data.status\<close>: the tool calls of a
  \<^verbatim>\<open>requires_action\<close> status. The result is the status the loop goes on with.
\<close>

definition handle_function_calls ::
    "world \<Rightarrow> process_env \<Rightarrow> http_headers \<Rightarrow> js_string \<Rightarrow> js_string \<Rightarrow> run_data \<Rightarrow> call list
       \<Rightarrow> (thrown + js_string) \<times> call list" where
  "handle_function_calls w env headers currentThreadId runId statusRes tr =
     (if run_status statusRes = lit ''requires_action'' then
        (let toolCalls = (case run_tool_calls statusRes of None \<Rightarrow> [] | Some tcs \<Rightarrow> tcs)
         in if length toolCalls > 0 then
              (case dispatch w env toolCalls tr of
                 (toolOutputs, tr1) \<Rightarrow>
                   (case perform (post_submit w) (PostSubmit currentThreadId runId toolOutputs headers) tr1 of
                      (Inl e, tr2) \<Rightarrow> (Inl e, tr2)
                    | (Inr u, tr2) \<Rightarrow> (Inr (lit ''in_progress''), tr2)))
            else (Inr (run_status statusRes), tr))
      else (Inr (run_status statusRes), tr))"

text \<open>Lines 76 to 173: the polling loop. \<open>Inl\<close> is an exception that leaves the loop.\<close>

function poll ::
    "world \<Rightarrow> process_env \<Rightarrow> http_headers \<Rightarrow> js_string \<Rightarrow> js_string \<Rightarrow> js_string \<Rightarrow> nat \<Rightarrow> call list
       \<Rightarrow> (thrown + js_string) \<times> call list" where
  "poll w env headers currentThreadId runId status retries tr =
     (if (status = lit ''in_progress'' \<or> status = lit ''queued'' \<or> status = lit ''requires_action'')
         \<and> retries < maxRetries then
        (case perform (get_run w) (GetRun currentThreadId runId headers) (tr @ [Sleep 2000]) of
           (Inl e, tr1) \<Rightarrow> (Inl e, tr1)
         | (Inr statusRes, tr1) \<Rightarrow>
             (case handle_function_calls w env headers currentThreadId runId statusRes tr1 of
                (Inl e, tr2) \<Rightarrow> (Inl e, tr2)
              | (Inr status', tr2) \<Rightarrow>
                  poll w env headers currentThreadId runId status' (retries + 1) tr2))
      else (Inr status, tr))"
  by pat_completeness auto
termination
  by (relation "measure (\<lambda>(w, env, headers, currentThreadId, runId, status, retries, tr). maxRetries - retries)")
     auto

declare poll.simps [simp del]

text \<open>
  Line 212: the reply of a completed run,
  \<^verbatim>\<open>assistantMsg?.content?.[0]?.text?.value?.replace(...) || "No valid response."\<close>,
  with \<^verbatim>\<open>assistantMsg\<close> the first message whose role is \<^verbatim>\<open>assistant\<close>.
\<close>

definition completed_reply :: "Message list \<Rightarrow> js_string" where
  "completed_reply msgs =
     (case find (\<lambda>m. msg_role m = lit ''assistant'') msgs of
        None \<Rightarrow> lit ''No valid response.''
      | Some assistantMsg \<Rightarrow>
          (case msg_content assistantMsg of
             [] \<Rightarrow> lit ''No valid response.''
           | part # parts \<Rightarrow>
               (case part of
                  None \<Rightarrow> lit ''No valid response.''
                | Some v \<Rightarrow> str_or (Some (strip_citations v)) (lit ''No valid response.''))))"

text \<open>Lines 203 to 225: the reply for the status the loop ended with.\<close>

definition final_reply ::
    "world \<Rightarrow> http_headers \<Rightarrow> js_string \<Rightarrow> js_string \<Rightarrow> call list \<Rightarrow> (thrown + js_string) \<times> call list" where
  "final_reply w headers currentThreadId status tr =
     (if status = lit ''completed'' then
        (case perform (get_messages w) (GetMessages currentThreadId headers) tr of
           (Inl e, tr1) \<Rightarrow> (Inl e, tr1)
         | (Inr msgs, tr1) \<Rightarrow> (Inr (completed_reply msgs), tr1))
      else if status = lit ''failed'' then
        (Inr (lit ''The assistant encountered an error. Please try again.''), tr)
      else if status = lit ''cancelled'' then
        (Inr (lit ''Request was cancelled. Please try again.''), tr)
      else (Inr (lit ''Unexpected error occurred. Please try again.''), tr))"

definition timeoutResponse :: "js_string \<Rightarrow> http_response" where
  "timeoutResponse currentThreadId =
     headers_set (lit ''Cache-Control'') (lit ''no-cache'')
       (NextResponse_json
          (JObj [(lit ''error'',
                  JStr (lit ''Request timeout. The assistant is taking longer than expected. Please try again.'')),
                 (lit ''threadId'', JStr currentThreadId)])
          504)"

text \<open>
  Lines 175 to 238: what follows the loop. The \<^verbatim>\<open>try\<close> around the cancel call drops its
  outcome (the \<^verbatim>\<open>catch\<close> only logs).
\<close>

definition after_loop ::
    "world \<Rightarrow> http_headers \<Rightarrow> js_string \<Rightarrow> js_string \<Rightarrow> js_string \<Rightarrow> call list
       \<Rightarrow> (thrown + http_response) \<times> call list" where
  "after_loop w headers currentThreadId runId status tr =
     (if status \<noteq> lit ''completed'' \<and> status \<noteq> lit ''failed'' \<and> status \<noteq> lit ''cancelled'' then
        (case perform (post_cancel w) (PostCancel currentThreadId runId headers) tr of
           (cancelled, tr1) \<Rightarrow> (Inr (timeoutResponse currentThreadId), tr1))
      else
        (case final_reply w headers currentThreadId status tr of
           (Inl e, tr1) \<Rightarrow> (Inl e, tr1)
         | (Inr reply, tr1) \<Rightarrow>
             (Inr (headers_set (lit ''Cache-Control'')
                     (if status = lit ''completed'' then lit ''s-maxage=120, stale-while-revalidate=300''
                      else lit ''no-cache'')
                     (NextResponse_json
                        (JObj [(lit ''reply'', JStr reply), (lit ''threadId'', JStr currentThreadId)]) 200)),
              tr1)))"

text \<open>
  Lines 19 to 239: the \<^verbatim>\<open>try\<close> block of the handler. The argument is what
  \<^verbatim>\<open>await req.json()\<close> gives: the body, or what it throws. \<open>Inl\<close> is the exception that
  reaches the \<^verbatim>\<open>catch\<close> of line 240.
\<close>

definition try_block ::
    "world \<Rightarrow> process_env \<Rightarrow> thrown + chat_request \<Rightarrow> (thrown + http_response) \<times> call list" where
  "try_block w env req =
     (case req of
        Inl e \<Rightarrow> (Inl e, [])
      | Inr rq \<Rightarrow>
          (case (truthy_str (OPENAI_API_KEY env), truthy_str (OPENAI_ASSISTANT_ID env)) of
             (Some key, Some ASSISTANT_ID) \<Rightarrow>
               (let headers = build_headers key env
                in case start_run w headers ASSISTANT_ID rq of
                     (Inl e, tr1) \<Rightarrow> (Inl e, tr1)
                   | (Inr (currentThreadId, runId), tr1) \<Rightarrow>
                       (case poll w env headers currentThreadId runId (lit ''in_progress'') 0 tr1 of
                          (Inl e, tr2) \<Rightarrow> (Inl e, tr2)
                        | (Inr status, tr2) \<Rightarrow> after_loop w headers currentThreadId runId status tr2))
           | missing \<Rightarrow>
               (Inr (NextResponse_json (JObj [(lit ''error'', JStr (lit ''Missing OpenAI credentials''))]) 500),
                [])))"

text \<open>
  \<^verbatim>\<open>error.response?.data?.error?.message || error.message || fallback\<close> of the \<^verbatim>\<open>catch\<close>
  blocks.
\<close>

fun catch_message :: "thrown \<Rightarrow> js_string \<Rightarrow> js_string" where
  "catch_message (ErrorObj m r) d = str_or r (str_or (Some m) d)"
| "catch_message NonError d = d"

text \<open>The handler \<^verbatim>\<open>POST\<close> of the chat route: its response and the calls it issued.\<close>

definition POST :: "world \<Rightarrow> process_env \<Rightarrow> thrown + chat_request \<Rightarrow> http_response \<times> call list" where
  "POST w env req =
     (case try_block w env req of
        (Inr response, tr) \<Rightarrow> (response, tr)
      | (Inl err, tr) \<Rightarrow>
          (headers_set (lit ''Cache-Control'') (lit ''no-cache'')
             (NextResponse_json (JObj [(lit ''error'', JStr (catch_message err (lit ''Unknown error'')))]) 500),
           tr))"

section \<open>The search route\<close>

text \<open>
  The repository holds two files for the search route, both \<^verbatim>\<open>POST\<close> handlers that
  forward a query to the Tavily API: the first file of \<^verbatim>\<open>src/unnamed/part_001\<close> (lines
  1 to 92) and the second (lines 92 to 157). They differ in the default of
  \<^verbatim>\<open>include_domains\<close> and in whether the field is always sent.

  The request body, as the route destructures it: \<^verbatim>\<open>{ query, max_results, include_domains }\<close>,
  each property possibly absent; \<^verbatim>\<open>include_domains\<close>, when present, is an array.
\<close>

record search_request =
  sr_query :: "json option"
  sr_max_results :: "json option"
  sr_include_domains :: "json list option"

text \<open>
  What both files do with the provider's response (lines 59 to 79 of the first, 124 to 144
  of the second). The first read of \<^verbatim>\<open>data.results\<close> is the one of the \<^verbatim>\<open>console.log\<close>.
\<close>

definition tavily_result :: "fetch_response \<Rightarrow> call list \<Rightarrow> (thrown + http_response) \<times> call list" where
  "tavily_result response tr =
     (if \<not> resp_ok response then
        (case resp_text response of
           Inl e \<Rightarrow> (Inl e, tr)
         | Inr errorText \<Rightarrow>
             (Inl (ErrorObj (lit ''Tavily API error: '' @ show_nat (resp_status response)) None), tr))
      else
        (case resp_json response of
           Inl e \<Rightarrow> (Inl e, tr)
         | Inr data \<Rightarrow>
             (case get_prop data (lit ''results'') of
                Inl e \<Rightarrow> (Inl e, tr)
              | Inr results \<Rightarrow>
                  (let answer = (case get_prop data (lit ''answer'') of Inl e \<Rightarrow> None | Inr v \<Rightarrow> v)
                   in (Inr (headers_set (lit ''Cache-Control'') (lit ''s-maxage=600, stale-while-revalidate=1200'')
                              (NextResponse_json
                                 (JObj [(lit ''results'', js_or results (JArr [])),
                                        (lit ''answer'', js_or answer JNull)]) 200)),
                       tr)))))"

text \<open>The \<^verbatim>\<open>catch\<close> block of both files.\<close>

definition search_catch :: "(thrown + http_response) \<times> call list \<Rightarrow> http_response \<times> call list" where
  "search_catch r =
     (case r of
        (Inr response, tr) \<Rightarrow> (response, tr)
      | (Inl err, tr) \<Rightarrow>
          (headers_set (lit ''Cache-Control'') (lit ''no-cache'')
             (NextResponse_json (JObj [(lit ''error'', JStr (catch_message err (lit ''Search failed'')))]) 500),
           tr))"

text \<open>
  The first file, lines 33 to 51: \<^verbatim>\<open>tavilyRequest\<close>, with \<^verbatim>\<open>include_domains\<close> added
  only if the array has values.
\<close>

definition tavilyRequest :: "js_string \<Rightarrow> json \<Rightarrow> json \<Rightarrow> json list \<Rightarrow> json" where
  "tavilyRequest key query max_results include_domains =
     JObj ([(lit ''api_key'', JStr key),
            (lit ''query'', query),
            (lit ''max_results'', max_results),
            (lit ''include_answer'', JBool True),
            (lit ''include_raw_content'', JBool False)]
           @ (if length include_domains > 0 then [(lit ''include_domains'', JArr include_domains)] else []))"

text \<open>The first file: the handler \<^verbatim>\<open>POST\<close> (lines 16 to 92).\<close>

definition search_POST :: "world \<Rightarrow> process_env \<Rightarrow> thrown + search_request \<Rightarrow> http_response \<times> call list" where
  "search_POST w env req =
     search_catch
       (case req of
          Inl e \<Rightarrow> (Inl e, [])
        | Inr rq \<Rightarrow>
            (let max_results = (case sr_max_results rq of None \<Rightarrow> JNum 3 | Some v \<Rightarrow> v);
                 include_domains = (case sr_include_domains rq of None \<Rightarrow> [] | Some ds \<Rightarrow> ds)
             in case sr_query rq of
                  None \<Rightarrow> (Inr (NextResponse_json (JObj [(lit ''error'', JStr (lit ''Query required''))]) 400), [])
                | Some query \<Rightarrow>
                    if \<not> truthy query then
                      (Inr (NextResponse_json (JObj [(lit ''error'', JStr (lit ''Query required''))]) 400), [])
                    else
                      (case truthy_str (TAVILY_API_KEY env) of
                         None \<Rightarrow>
                           (Inr (NextResponse_json (JObj [(lit ''error'', JStr (lit ''Tavily API key missing''))]) 500),
                            [])
                       | Some key \<Rightarrow>
                           (case perform (fetch_tavily w)
                                   (FetchTavily (tavilyRequest key query max_results include_domains)) [] of
                              (Inl e, tr) \<Rightarrow> (Inl e, tr)
                            | (Inr response, tr) \<Rightarrow> tavily_result response tr))))"

text \<open>
  The second file: the handler \<^verbatim>\<open>POST\<close> (lines 95 to 157 of \<^verbatim>\<open>part_001\<close>). The default
  of \<^verbatim>\<open>include_domains\<close> is \<^verbatim>\<open>["ey.com"]\<close>, and the request body always has the field
  (lines 114 to 121).
\<close>

definition search_POST_second :: "world \<Rightarrow> process_env \<Rightarrow> thrown + search_request \<Rightarrow> http_response \<times> call list" where
  "search_POST_second w env req =
     search_catch
       (case req of
          Inl e \<Rightarrow> (Inl e, [])
        | Inr rq \<Rightarrow>
            (let max_results = (case sr_max_results rq of None \<Rightarrow> JNum 3 | Some v \<Rightarrow> v);
                 include_domains = (case sr_include_domains rq of None \<Rightarrow> [JStr (lit ''ey.com'')] | Some ds \<Rightarrow> ds)
             in case sr_query rq of
                  None \<Rightarrow> (Inr (NextResponse_json (JObj [(lit ''error'', JStr (lit ''Query required''))]) 400), [])
                | Some query \<Rightarrow>
                    if \<not> truthy query then
                      (Inr (NextResponse_json (JObj [(lit ''error'', JStr (lit ''Query required''))]) 400), [])
                    else
                      (case truthy_str (TAVILY_API_KEY env) of
                         None \<Rightarrow>
                           (Inr (NextResponse_json (JObj [(lit ''error'', JStr (lit ''Tavily API key missing''))]) 500),
                            [])
                       | Some key \<Rightarrow>
                           (case perform (fetch_tavily w)
                                   (FetchTavily
                                      (JObj [(lit ''api_key'', JStr key),
                                             (lit ''query'', query),
                                             (lit ''max_results'', max_results),
                                             (lit ''include_answer'', JBool True),
                                             (lit ''include_raw_content'', JBool False),
                                             (lit ''include_domains'', JArr include_domains)])) [] of
                              (Inl e, tr) \<Rightarrow> (Inl e, tr)
                            | (Inr response, tr) \<Rightarrow> tavily_result response tr))))"

section \<open>Calls by kind\<close>

text \<open>The kinds of calls the properties count in a trace.\<close>

fun is_cancel :: "call \<Rightarrow> bool" where
  "is_cancel (PostCancel t r h) = True"
| "is_cancel c = False"

fun is_submit :: "call \<Rightarrow> bool" where
  "is_submit (PostSubmit t r outs h) = True"
| "is_submit c = False"

fun is_search :: "call \<Rightarrow> bool" where
  "is_search (FetchSearch u b) = True"
| "is_search c = False"

fun is_get_run :: "call \<Rightarrow> bool" where
  "is_get_run (GetRun t r h) = True"
| "is_get_run c = False"

fun is_sleep :: "call \<Rightarrow> bool" where
  "is_sleep (Sleep ms) = True"
| "is_sleep c = False"

fun is_create_thread :: "call \<Rightarrow> bool" where
  "is_create_thread (PostThreads h) = True"
| "is_create_thread c = False"

text \<open>The calls of the tool round of one iteration, and the calls of the loop.\<close>

fun tool_traffic :: "call \<Rightarrow> bool" where
  "tool_traffic (FetchSearch u b) = True"
| "tool_traffic (PostSubmit t r outs h) = True"
| "tool_traffic c = False"

fun loop_call :: "call \<Rightarrow> bool" where
  "loop_call (Sleep ms) = (ms = 2000)"
| "loop_call (GetRun t r h) = True"
| "loop_call (FetchSearch u b) = True"
| "loop_call (PostSubmit t r outs h) = True"
| "loop_call c = False"

text \<open>
  The output that the \<^verbatim>\<open>catch\<close> of the \<^verbatim>\<open>web_search\<close> handler returns for a thrown value
  (lines 143 to 149), named for the statements below.
\<close>

definition error_output :: "ToolCall \<Rightarrow> thrown \<Rightarrow> ToolOutput" where
  "error_output toolCall e =
     \<lparr>tool_call_id = tc_id toolCall,
      output' = JSON_stringify (JObj [(lit ''error'', JStr (errorMessage e)), (lit ''results'', JArr [])])\<rparr>"

text \<open>
  Position \<open>k\<close> of the text lies in an occurrence of the citation pattern: some match that
  starts at \<open>i \<le> k\<close> ends behind \<open>k\<close>.
\<close>

definition in_marker :: "js_string \<Rightarrow> nat \<Rightarrow> bool" where
  "in_marker s k =
     list_ex (\<lambda>i. case match_at (drop i s) of None \<Rightarrow> False | Some r \<Rightarrow> k < length s - length r)
       [0..<Suc k]"

text \<open>Every opening bracket U+3010 of the text starts an occurrence of the pattern.\<close>

fun lb_opens_marker :: "js_string \<Rightarrow> bool" where
  "lb_opens_marker [] = True"
| "lb_opens_marker (c # cs) = ((if c = LB then match_at (c # cs) \<noteq> None else True) \<and> lb_opens_marker cs)"

section \<open>Sample worlds and requests\<close>

definition demo_env :: process_env where
  "demo_env = \<lparr>OPENAI_API_KEY = Some (lit ''sk-test''), OPENAI_ASSISTANT_ID = Some (lit ''asst_1''),
     OPENAI_ORGANIZATION = None, VERCEL_URL = None, TAVILY_API_KEY = Some (lit ''tvly-test'')\<rparr>"

definition no_key_env :: process_env where
  "no_key_env = \<lparr>OPENAI_API_KEY = None, OPENAI_ASSISTANT_ID = Some (lit ''asst_1''),
     OPENAI_ORGANIZATION = None, VERCEL_URL = None, TAVILY_API_KEY = Some (lit ''tvly-test'')\<rparr>"

definition demo_headers :: http_headers where
  "demo_headers = [(lit ''Authorization'', lit ''Bearer sk-test''),
                   (lit ''Content-Type'', lit ''application/json''),
                   (lit ''OpenAI-Beta'', lit ''assistants=v2'')]"

text \<open>A run that never leaves \<^verbatim>\<open>in_progress\<close>, and a cancel call that fails.\<close>

definition stuck_world :: world where
  "stuck_world = \<lparr>
     post_threads = (\<lambda>tr. Inr (lit ''thread_new'')),
     post_message = (\<lambda>tr. Inr ()),
     post_run = (\<lambda>tr. Inr (lit ''run_1'')),
     get_run = (\<lambda>tr. Inr \<lparr>run_status = lit ''in_progress'', run_tool_calls = None\<rparr>),
     JSON_parse = (\<lambda>s. Inl (ErrorObj (lit ''Unexpected end of JSON input'') None)),
     fetch_search = (\<lambda>tr. Inl (ErrorObj (lit ''fetch failed'') None)),
     post_submit = (\<lambda>tr. Inr ()),
     post_cancel = (\<lambda>tr. Inl (ErrorObj (lit ''Network Error'') None)),
     get_messages = (\<lambda>tr. Inr []),
     fetch_tavily = (\<lambda>tr. Inl (ErrorObj (lit ''fetch failed'') None))\<rparr>"

text \<open>The calls of \<open>n\<close> iterations that serve no tool call.\<close>

definition polls :: "nat \<Rightarrow> js_string \<Rightarrow> js_string \<Rightarrow> http_headers \<Rightarrow> call list" where
  "polls n t r h = concat (replicate n [Sleep 2000, GetRun t r h])"

definition demo_request :: chat_request where
  "demo_request = \<lparr>req_input = lit ''Give me an overview.'', req_threadId = None\<rparr>"

definition reuse_request :: chat_request where
  "reuse_request = \<lparr>req_input = lit ''Give me an overview.'', req_threadId = Some (lit ''thread_abc'')\<rparr>"

text \<open>Tool calls: a search, a search whose arguments do not parse, and an unknown function.\<close>

definition quoted :: "string \<Rightarrow> js_string" where
  "quoted s = [34] @ lit s @ [34]"

definition demo_arguments :: js_string where
  "demo_arguments = lit ''{'' @ quoted ''query'' @ lit '':'' @ quoted ''AI adoption Jamaica'' @ lit ''}''"

definition call_1 :: ToolCall where
  "call_1 = \<lparr>tc_id = lit ''call_1'', fn_name = lit ''web_search'', fn_arguments = demo_arguments\<rparr>"

definition call_2 :: ToolCall where
  "call_2 = \<lparr>tc_id = lit ''call_2'', fn_name = lit ''web_search'', fn_arguments = lit ''{query''\<rparr>"

definition call_3 :: ToolCall where
  "call_3 = \<lparr>tc_id = lit ''call_3'', fn_name = lit ''get_weather'', fn_arguments = lit ''{}''\<rparr>"

text \<open>A world whose search endpoint answers 500.\<close>

definition tool_world :: world where
  "tool_world = stuck_world\<lparr>
     get_run := (\<lambda>tr. if filter is_submit tr = []
                       then Inr \<lparr>run_status = lit ''requires_action'',
                                 run_tool_calls = Some [call_1, call_2, call_3]\<rparr>
                       else Inr \<lparr>run_status = lit ''completed'', run_tool_calls = None\<rparr>),
     JSON_parse := (\<lambda>s. if s = demo_arguments
                          then Inr (JObj [(lit ''query'', JStr (lit ''AI adoption Jamaica''))])
                          else Inl (ErrorObj (lit ''Unexpected token q in JSON at position 1'') None)),
     fetch_search := (\<lambda>tr. Inr \<lparr>resp_ok = False, resp_status = 500,
                                  resp_text = Inr (lit ''Tavily API key missing''),
                                  resp_json = Inr (JObj [(lit ''error'', JStr (lit ''Tavily API key missing''))])\<rparr>)\<rparr>"

text \<open>A run that is completed at the first poll, with the assistant's text \<open>v\<close>.\<close>

definition done_world :: "js_string \<Rightarrow> world" where
  "done_world v = stuck_world\<lparr>
     get_run := (\<lambda>tr. Inr \<lparr>run_status = lit ''completed'', run_tool_calls = None\<rparr>),
     get_messages := (\<lambda>tr. Inr [\<lparr>msg_role = lit ''assistant'', msg_content = [Some v]\<rparr>,
                                  \<lparr>msg_role = lit ''user'', msg_content = [Some (lit ''Give me an overview.'')]\<rparr>])\<rparr>"

text \<open>
  Two assistant texts. In \<open>nested_text\<close> a marker \<^verbatim>\<open><LB>1:2<DAGGER>x<RB>\<close> stands inside
  \<^verbatim>\<open><LB>1:\<close> and \<^verbatim>\<open>2<DAGGER>y<RB>\<close>; \<open>clean_text\<close> is a sentence with the marker
  \<^verbatim>\<open><LB>4:0<DAGGER>source<RB>\<close> before its full stop.
\<close>

definition nested_text :: js_string where
  "nested_text = [12304, 49, 58, 12304, 49, 58, 50, 8224, 120, 12305, 50, 8224, 121, 12305]"

definition clean_text :: js_string where
  "clean_text = lit ''AI adoption rose'' @ [12304, 52, 58, 48, 8224] @ lit ''source'' @ [12305] @ lit ''.''"

text \<open>A world that rejects the user message, as the remote service does for an unknown thread.\<close>

definition broken_world :: world where
  "broken_world = stuck_world\<lparr>
     post_message := (\<lambda>tr. Inl (ErrorObj (lit ''Request failed with status code 404'')
                                   (Some (lit ''No thread found with id thread_abc.''))))\<rparr>"

text \<open>Requests to the search route: an empty allow-list, and none.\<close>

definition empty_domains_request :: search_request where
  "empty_domains_request =
     \<lparr>sr_query = Some (JStr (lit ''AI adoption Jamaica'')), sr_max_results = None, sr_include_domains = Some []\<rparr>"

definition no_domains_request :: search_request where
  "no_domains_request =
     \<lparr>sr_query = Some (JStr (lit ''AI adoption Jamaica'')), sr_max_results = None, sr_include_domains = None\<rparr>"

text \<open>The response of the \<^verbatim>\<open>catch\<close> block of the chat route (lines 245 to 250), named for the proofs.\<close>

definition error_500 :: "thrown \<Rightarrow> http_response" where
  "error_500 err =
     headers_set (lit ''Cache-Control'') (lit ''no-cache'')
       (NextResponse_json (JObj [(lit ''error'', JStr (catch_message err (lit ''Unknown error'')))]) 500)"

section \<open>Literals\<close>

lemma lit_eq_iff [simp]: "lit a = lit b \<longleftrightarrow> a = b"
  unfolding lit_def by (simp add: inj_map_eq_map inj_def)

lemma lit_eq_Nil [simp]: "lit s = [] \<longleftrightarrow> s = []"
  by (simp add: lit_def)

lemma lit_no_LB: "LB \<notin> set (lit s)"
proof -
  have lt: "of_char c < (256 :: nat)" for c :: char
  proof -
    have "(of_char c :: nat) mod 256 < 256" by simp
    then show ?thesis by (simp only: of_char_mod_256)
  qed
  show ?thesis
  proof
    assume "LB \<in> set (lit s)"
    then obtain c :: char where "of_char c = (12304 :: nat)" by (auto simp: lit_def LB_def)
    with lt [of c] show False by simp
  qed
qed

section \<open>The tool dispatcher\<close>

subsection \<open>What a dispatch adds to the trace\<close>

lemma search_attempt_trace:
  "search_attempt w env tc tr = (r, tr') \<Longrightarrow> \<exists>ext. tr' = tr @ ext \<and> list_all is_search ext"
  by (auto simp: search_attempt_def perform_def Let_def split: sum.splits if_splits prod.splits)

lemma handle_tool_call_trace:
  "handle_tool_call w env tc tr = (out, tr') \<Longrightarrow> \<exists>ext. tr' = tr @ ext \<and> list_all is_search ext"
  by (auto simp: handle_tool_call_def split: if_splits prod.splits sum.splits dest: search_attempt_trace)

lemma handle_tool_call_id:
  "handle_tool_call w env tc tr = (out, tr') \<Longrightarrow> tool_call_id out = tc_id tc"
  by (auto simp: handle_tool_call_def split: if_splits prod.splits sum.splits)

lemma dispatch_trace:
  "dispatch w env tcs tr = (outs, tr') \<Longrightarrow> \<exists>ext. tr' = tr @ ext \<and> list_all is_search ext"
proof (induction tcs arbitrary: tr outs tr')
  case Nil
  then show ?case by simp
next
  case (Cons tc tcs)
  obtain out tr1 where h: "handle_tool_call w env tc tr = (out, tr1)"
    by (cases "handle_tool_call w env tc tr")
  obtain outs1 tr2 where d: "dispatch w env tcs tr1 = (outs1, tr2)"
    by (cases "dispatch w env tcs tr1")
  from Cons.prems h d have eq: "tr' = tr2" by simp
  from handle_tool_call_trace [OF h] obtain e1 where e1: "tr1 = tr @ e1" "list_all is_search e1" by blast
  from Cons.IH [OF d] obtain e2 where e2: "tr2 = tr1 @ e2" "list_all is_search e2" by blast
  from eq e1 e2 show ?case by auto
qed

lemma dispatch_ids:
  "dispatch w env tcs tr = (outs, tr') \<Longrightarrow> map tool_call_id outs = map tc_id tcs"
proof (induction tcs arbitrary: tr outs tr')
  case Nil
  then show ?case by simp
next
  case (Cons tc tcs)
  obtain out tr1 where h: "handle_tool_call w env tc tr = (out, tr1)"
    by (cases "handle_tool_call w env tc tr")
  obtain outs1 tr2 where d: "dispatch w env tcs tr1 = (outs1, tr2)"
    by (cases "dispatch w env tcs tr1")
  from Cons.prems h d have eq: "outs = out # outs1" by simp
  from handle_tool_call_id [OF h] Cons.IH [OF d] eq show ?case by simp
qed

lemma handle_function_calls_trace:
  assumes "handle_function_calls w env headers t r statusRes tr = (res, tr')"
  shows "\<exists>ext. tr' = tr @ ext \<and> list_all tool_traffic ext"
proof (cases "run_status statusRes = lit ''requires_action''
              \<and> (case run_tool_calls statusRes of None \<Rightarrow> [] | Some tcs \<Rightarrow> tcs) \<noteq> []")
  case False
  with assms have "tr' = tr" by (auto simp: handle_function_calls_def Let_def split: if_splits)
  then show ?thesis by simp
next
  case True
  let ?tcs = "case run_tool_calls statusRes of None \<Rightarrow> [] | Some tcs \<Rightarrow> tcs"
  obtain outs tr1 where d: "dispatch w env ?tcs tr = (outs, tr1)"
    by (cases "dispatch w env ?tcs tr")
  from dispatch_trace [OF d] obtain e where e: "tr1 = tr @ e" "list_all is_search e" by blast
  have "list_all tool_traffic e"
    using e(2) by (induction e) (auto elim: is_search.elims)
  moreover have "tr' = tr1 @ [PostSubmit t r outs headers]"
    using assms True d by (auto simp: handle_function_calls_def Let_def perform_def split: sum.splits)
  ultimately show ?thesis using e(1) by auto
qed

subsection \<open>The sample tool calls\<close>

lemma call_1_fields: "fn_name call_1 = lit ''web_search''" "tc_id call_1 = lit ''call_1''"
  by (simp_all add: call_1_def)

lemma search_attempt_call_1:
  "search_attempt tool_world demo_env call_1 tr
     = (Inl (ErrorObj (lit ''Search failed: 500'') None),
        tr @ [FetchSearch (lit ''http://localhost:3000/api/search'')
               (JObj [(lit ''query'', JStr (lit ''AI adoption Jamaica'')),
                      (lit ''max_results'', JNum 3),
                      (lit ''include_domains'', JArr [JStr (lit ''ey.com'')])])])"
  by (simp add: search_attempt_def tool_world_def stuck_world_def call_1_def perform_def baseUrl_def
        demo_env_def search_body_def show_nat.simps lit_def)

lemma dispatch_sample:
  "dispatch tool_world demo_env [call_1, call_2, call_3] []
     = ([error_output call_1 (ErrorObj (lit ''Search failed: 500'') None),
         error_output call_2 (ErrorObj (lit ''Unexpected token q in JSON at position 1'') None),
         \<lparr>tool_call_id = lit ''call_3'',
           output' = JSON_stringify (JObj [(lit ''error'', JStr (lit ''Unknown function''))])\<rparr>],
        [FetchSearch (lit ''http://localhost:3000/api/search'')
           (JObj [(lit ''query'', JStr (lit ''AI adoption Jamaica'')),
                  (lit ''max_results'', JNum 3),
                  (lit ''include_domains'', JArr [JStr (lit ''ey.com'')])])])"
proof -
  have h2: "handle_tool_call tool_world demo_env call_2 tr
      = (error_output call_2 (ErrorObj (lit ''Unexpected token q in JSON at position 1'') None), tr)" for tr
    by (simp add: handle_tool_call_def search_attempt_def tool_world_def stuck_world_def call_2_def
          error_output_def demo_arguments_def quoted_def lit_def)
  have h3: "handle_tool_call tool_world demo_env call_3 tr
      = (\<lparr>tool_call_id = lit ''call_3'',
           output' = JSON_stringify (JObj [(lit ''error'', JStr (lit ''Unknown function''))])\<rparr>, tr)" for tr
    by (simp add: handle_tool_call_def call_3_def)
  have h1: "handle_tool_call tool_world demo_env call_1 tr
      = (error_output call_1 (ErrorObj (lit ''Search failed: 500'') None),
         tr @ [FetchSearch (lit ''http://localhost:3000/api/search'')
           (JObj [(lit ''query'', JStr (lit ''AI adoption Jamaica'')),
                  (lit ''max_results'', JNum 3),
                  (lit ''include_domains'', JArr [JStr (lit ''ey.com'')])])])" for tr
    using call_1_fields by (simp add: handle_tool_call_def search_attempt_call_1 error_output_def)
  show ?thesis by (simp add: h1 h2 h3 error_output_def)
qed

subsection \<open>Completeness of the outputs\<close>

text \<open>
  Claim C2. In a \<^verbatim>\<open>requires_action\<close> iteration whose list of \<open>N\<close> tool calls is handled
  (the route handles a list that is not empty, line 91), the dispatcher returns \<open>N\<close> outputs
  whose ids are the ids of the calls, in the order of the calls, so one output per call, none
  missing and none twice, whatever each handler did; and among the calls the iteration issues
  there is exactly one \<^verbatim>\<open>submit_tool_outputs\<close> call, which carries all the outputs.
\<close>

theorem dispatch_complete:
  assumes "run_status statusRes = lit ''requires_action''"
    and "run_tool_calls statusRes = Some toolCalls"
    and "toolCalls \<noteq> []"
  shows "\<exists>outs tr1 ext res.
           dispatch w env toolCalls tr = (outs, tr1)
         \<and> length outs = length toolCalls
         \<and> map tool_call_id outs = map tc_id toolCalls
         \<and> (distinct (map tc_id toolCalls) \<longrightarrow> distinct (map tool_call_id outs))
         \<and> handle_function_calls w env headers currentThreadId runId statusRes tr = (res, tr @ ext)
         \<and> filter is_submit ext = [PostSubmit currentThreadId runId outs headers]"
proof -
  obtain outs tr1 where d: "dispatch w env toolCalls tr = (outs, tr1)"
    by (cases "dispatch w env toolCalls tr")
  from dispatch_trace [OF d] obtain e where e: "tr1 = tr @ e" "list_all is_search e" by blast
  have ids: "map tool_call_id outs = map tc_id toolCalls" by (rule dispatch_ids [OF d])
  then have len: "length outs = length toolCalls" by (metis length_map)
  have nosub: "filter is_submit e = []"
    using e(2) by (induction e) (auto elim: is_search.elims)
  let ?ext = "e @ [PostSubmit currentThreadId runId outs headers]"
  have "\<exists>res. handle_function_calls w env headers currentThreadId runId statusRes tr = (res, tr @ ?ext)"
    using assms d e(1) by (auto simp: handle_function_calls_def perform_def split: sum.splits)
  moreover have "filter is_submit ?ext = [PostSubmit currentThreadId runId outs headers]"
    using nosub by simp
  ultimately show ?thesis using d ids len by (metis (no_types))
qed

theorem dispatch_complete_witness:
  "run_status \<lparr>run_status = lit ''requires_action'', run_tool_calls = Some [call_1, call_2, call_3]\<rparr>
      = lit ''requires_action''
   \<and> [call_1, call_2, call_3] \<noteq> []
   \<and> dispatch tool_world demo_env [call_1, call_2, call_3] []
       = ([error_output call_1 (ErrorObj (lit ''Search failed: 500'') None),
           error_output call_2 (ErrorObj (lit ''Unexpected token q in JSON at position 1'') None),
           \<lparr>tool_call_id = lit ''call_3'',
             output' = JSON_stringify (JObj [(lit ''error'', JStr (lit ''Unknown function''))])\<rparr>],
          [FetchSearch (lit ''http://localhost:3000/api/search'')
             (JObj [(lit ''query'', JStr (lit ''AI adoption Jamaica'')),
                    (lit ''max_results'', JNum 3),
                    (lit ''include_domains'', JArr [JStr (lit ''ey.com'')])])])
   \<and> (\<exists>res ext.
         handle_function_calls tool_world demo_env demo_headers (lit ''thread_1'') (lit ''run_1'')
            \<lparr>run_status = lit ''requires_action'', run_tool_calls = Some [call_1, call_2, call_3]\<rparr> []
            = (res, ext)
       \<and> filter is_submit ext
           = [PostSubmit (lit ''thread_1'') (lit ''run_1'')
                [error_output call_1 (ErrorObj (lit ''Search failed: 500'') None),
                 error_output call_2 (ErrorObj (lit ''Unexpected token q in JSON at position 1'') None),
                 \<lparr>tool_call_id = lit ''call_3'',
                   output' = JSON_stringify (JObj [(lit ''error'', JStr (lit ''Unknown function''))])\<rparr>]
                demo_headers])"
proof -
  let ?d = "\<lparr>run_status = lit ''requires_action'', run_tool_calls = Some [call_1, call_2, call_3]\<rparr>"
  have a: "run_status ?d = lit ''requires_action''" and b: "run_tool_calls ?d = Some [call_1, call_2, call_3]"
    and c: "[call_1, call_2, call_3] \<noteq> []" by simp_all
  from dispatch_complete [OF a b c, of tool_world demo_env "[]" demo_headers "lit ''thread_1''" "lit ''run_1''"]
  obtain outs tr1 ext res where
        d: "dispatch tool_world demo_env [call_1, call_2, call_3] [] = (outs, tr1)"
    and h: "handle_function_calls tool_world demo_env demo_headers (lit ''thread_1'') (lit ''run_1'') ?d []
              = (res, [] @ ext)"
    and f: "filter is_submit ext = [PostSubmit (lit ''thread_1'') (lit ''run_1'') outs demo_headers]"
    by blast
  from d have outs: "outs = fst (dispatch tool_world demo_env [call_1, call_2, call_3] [])" by simp
  from h f have "\<exists>res ext.
         handle_function_calls tool_world demo_env demo_headers (lit ''thread_1'') (lit ''run_1'') ?d []
            = (res, ext)
       \<and> filter is_submit ext = [PostSubmit (lit ''thread_1'') (lit ''run_1'') outs demo_headers]"
    by auto
  then show ?thesis unfolding outs dispatch_sample using a c by simp
qed

subsection \<open>Failures stay inside the dispatcher\<close>

text \<open>
  Claim C3. For a \<^verbatim>\<open>web_search\<close> tool call, whatever the \<^verbatim>\<open>try\<close> block throws (the
  decoding of the arguments, the request to the search endpoint, an answer that is not ok, the
  decoding of the answer) is caught: the callback returns the well-formed output
  \<^verbatim>\<open>{error: message, results: []}\<close> for that call, with the message of the error, or
  \<^verbatim>\<open>"Unknown error"\<close> for a thrown value that is no \<^verbatim>\<open>Error\<close>. The callback always returns
  an output, so nothing is raised into \<^verbatim>\<open>Promise.all\<close> and the run goes on: the only
  exception that can leave the tool round of an iteration is the one of the
  \<^verbatim>\<open>submit_tool_outputs\<close> call itself.
\<close>

theorem tool_error_absorbed:
  assumes "fn_name toolCall = lit ''web_search''"
  shows "(\<forall>e tr1. search_attempt w env toolCall tr = (Inl e, tr1)
            \<longrightarrow> handle_tool_call w env toolCall tr = (error_output toolCall e, tr1))
       \<and> (\<forall>e. JSON_parse w (fn_arguments toolCall) = Inl e
            \<longrightarrow> handle_tool_call w env toolCall tr = (error_output toolCall e, tr))
       \<and> (\<forall>args query e. JSON_parse w (fn_arguments toolCall) = Inr args
              \<and> get_prop args (lit ''query'') = Inr query
              \<and> fetch_search w (tr @ [FetchSearch (baseUrl env @ lit ''/api/search'')
                    (search_body query
                       (case get_prop args (lit ''max_results'') of Inl e \<Rightarrow> None | Inr v \<Rightarrow> v)
                       (case get_prop args (lit ''include_domains'') of Inl e \<Rightarrow> None | Inr v \<Rightarrow> v))]) = Inl e
            \<longrightarrow> fst (handle_tool_call w env toolCall tr) = error_output toolCall e)
       \<and> (\<forall>e. tool_call_id (error_output toolCall e) = tc_id toolCall
              \<and> output' (error_output toolCall e)
                  = JSON_stringify (JObj [(lit ''error'', JStr (errorMessage e)), (lit ''results'', JArr [])]))
       \<and> (\<forall>headers t r statusRes e tr'.
              handle_function_calls w env headers t r statusRes tr = (Inl e, tr')
            \<longrightarrow> post_submit w tr' = Inl e)"
proof -
  have "post_submit w tr' = Inl e"
    if "handle_function_calls w env headers t r statusRes tr = (Inl e, tr')"
    for headers t r statusRes e tr'
    using that
    by (auto simp: handle_function_calls_def perform_def Let_def split: if_splits prod.splits sum.splits)
  with assms show ?thesis
    by (auto simp: handle_tool_call_def search_attempt_def error_output_def perform_def Let_def)
qed

theorem tool_error_absorbed_witness:
  "fn_name call_1 = lit ''web_search''
   \<and> search_attempt tool_world demo_env call_1 []
       = (Inl (ErrorObj (lit ''Search failed: 500'') None),
          [FetchSearch (lit ''http://localhost:3000/api/search'')
             (JObj [(lit ''query'', JStr (lit ''AI adoption Jamaica'')),
                    (lit ''max_results'', JNum 3),
                    (lit ''include_domains'', JArr [JStr (lit ''ey.com'')])])])
   \<and> handle_tool_call tool_world demo_env call_1 []
       = (\<lparr>tool_call_id = lit ''call_1'',
           output' = JSON_stringify (JObj [(lit ''error'', JStr (lit ''Search failed: 500'')),
                                           (lit ''results'', JArr [])])\<rparr>,
          [FetchSearch (lit ''http://localhost:3000/api/search'')
             (JObj [(lit ''query'', JStr (lit ''AI adoption Jamaica'')),
                    (lit ''max_results'', JNum 3),
                    (lit ''include_domains'', JArr [JStr (lit ''ey.com'')])])])"
proof -
  have h: "fn_name call_1 = lit ''web_search''" by (simp add: call_1_def)
  note s = search_attempt_call_1 [of "[]", simplified]
  from tool_error_absorbed [OF h, of tool_world demo_env "[]"] s
  have "handle_tool_call tool_world demo_env call_1 []
          = (error_output call_1 (ErrorObj (lit ''Search failed: 500'') None),
             [FetchSearch (lit ''http://localhost:3000/api/search'')
               (JObj [(lit ''query'', JStr (lit ''AI adoption Jamaica'')),
                      (lit ''max_results'', JNum 3),
                      (lit ''include_domains'', JArr [JStr (lit ''ey.com'')])])])"
    by simp
  with h s show ?thesis by (simp add: error_output_def call_1_def)
qed

text \<open>
  Claim C8. A tool call whose name is not \<^verbatim>\<open>web_search\<close> has no handler: the callback
  returns the output \<^verbatim>\<open>{error: "Unknown function"}\<close> for it, issues no call, and has no
  exception to raise.
\<close>

theorem unknown_function_output:
  "fn_name toolCall \<noteq> lit ''web_search'' \<Longrightarrow>
   handle_tool_call w env toolCall tr =
     (\<lparr>tool_call_id = tc_id toolCall,
       output' = JSON_stringify (JObj [(lit ''error'', JStr (lit ''Unknown function''))])\<rparr>, tr)"
  by (simp add: handle_tool_call_def)

theorem unknown_function_output_witness:
  "fn_name call_3 \<noteq> lit ''web_search''
   \<and> handle_tool_call tool_world demo_env call_3 []
       = (\<lparr>tool_call_id = lit ''call_3'',
           output' = JSON_stringify (JObj [(lit ''error'', JStr (lit ''Unknown function''))])\<rparr>, [])"
proof -
  have h: "fn_name call_3 \<noteq> lit ''web_search''" by (simp add: call_3_def)
  from unknown_function_output [OF h, of tool_world demo_env "[]"] h show ?thesis
    by (simp add: call_3_def)
qed

subsection \<open>The defaults of a search\<close>

text \<open>
  Claim C10. When the arguments of a \<^verbatim>\<open>web_search\<close> tool call decode to an object, the
  handler issues one request to the search endpoint; if the object has no \<^verbatim>\<open>max_results\<close>
  the body of the request has \<^verbatim>\<open>max_results\<close> 3, and if it has no \<^verbatim>\<open>include_domains\<close> the
  body has \<^verbatim>\<open>include_domains\<close> \<^verbatim>\<open>["ey.com"]\<close>: by default a search of the assistant is
  restricted to that domain.
\<close>

theorem search_defaults:
  assumes "fn_name toolCall = lit ''web_search''"
    and "JSON_parse w (fn_arguments toolCall) = Inr (JObj kvs)"
  shows "\<exists>body. snd (search_attempt w env toolCall tr) = tr @ [FetchSearch (baseUrl env @ lit ''/api/search'') body]
           \<and> snd (handle_tool_call w env toolCall tr) = tr @ [FetchSearch (baseUrl env @ lit ''/api/search'') body]
           \<and> (map_of kvs (lit ''max_results'') = None
                \<longrightarrow> get_prop body (lit ''max_results'') = Inr (Some (JNum 3)))
           \<and> (map_of kvs (lit ''include_domains'') = None
                \<longrightarrow> get_prop body (lit ''include_domains'') = Inr (Some (JArr [JStr (lit ''ey.com'')])))"
proof -
  let ?body = "search_body (map_of kvs (lit ''query'')) (map_of kvs (lit ''max_results''))
                 (map_of kvs (lit ''include_domains''))"
  have a: "snd (search_attempt w env toolCall tr) = tr @ [FetchSearch (baseUrl env @ lit ''/api/search'') ?body]"
    using assms(2)
    by (auto simp: search_attempt_def perform_def Let_def split: sum.splits)
  have b: "snd (handle_tool_call w env toolCall tr) = snd (search_attempt w env toolCall tr)"
    using assms(1) by (auto simp: handle_tool_call_def split: prod.splits sum.splits)
  have c: "map_of kvs (lit ''max_results'') = None
             \<Longrightarrow> get_prop ?body (lit ''max_results'') = Inr (Some (JNum 3))"
    by (cases "map_of kvs (lit ''query'')") (simp_all add: search_body_def)
  have d: "map_of kvs (lit ''include_domains'') = None
             \<Longrightarrow> get_prop ?body (lit ''include_domains'') = Inr (Some (JArr [JStr (lit ''ey.com'')]))"
    by (cases "map_of kvs (lit ''query'')") (simp_all add: search_body_def)
  from a b c d show ?thesis by metis
qed

theorem search_defaults_witness:
  "fn_name call_1 = lit ''web_search''
   \<and> JSON_parse tool_world (fn_arguments call_1) = Inr (JObj [(lit ''query'', JStr (lit ''AI adoption Jamaica''))])
   \<and> snd (search_attempt tool_world demo_env call_1 [])
       = [FetchSearch (lit ''http://localhost:3000/api/search'')
            (JObj [(lit ''query'', JStr (lit ''AI adoption Jamaica'')),
                   (lit ''max_results'', JNum 3),
                   (lit ''include_domains'', JArr [JStr (lit ''ey.com'')])])]
   \<and> (\<exists>body. snd (handle_tool_call tool_world demo_env call_1 [])
                = [FetchSearch (baseUrl demo_env @ lit ''/api/search'') body]
            \<and> get_prop body (lit ''max_results'') = Inr (Some (JNum 3))
            \<and> get_prop body (lit ''include_domains'') = Inr (Some (JArr [JStr (lit ''ey.com'')])))"
proof -
  have h: "fn_name call_1 = lit ''web_search''" by (simp add: call_1_def)
  have p: "JSON_parse tool_world (fn_arguments call_1) = Inr (JObj [(lit ''query'', JStr (lit ''AI adoption Jamaica''))])"
    by (simp add: tool_world_def stuck_world_def call_1_def)
  have s: "snd (search_attempt tool_world demo_env call_1 [])
       = [FetchSearch (lit ''http://localhost:3000/api/search'')
            (JObj [(lit ''query'', JStr (lit ''AI adoption Jamaica'')),
                   (lit ''max_results'', JNum 3),
                   (lit ''include_domains'', JArr [JStr (lit ''ey.com'')])])]"
    by (simp add: search_attempt_call_1)
  from search_defaults [OF h p, of demo_env "[]"]
  have "\<exists>body. snd (handle_tool_call tool_world demo_env call_1 [])
                = [FetchSearch (baseUrl demo_env @ lit ''/api/search'') body]
            \<and> get_prop body (lit ''max_results'') = Inr (Some (JNum 3))
            \<and> get_prop body (lit ''include_domains'') = Inr (Some (JArr [JStr (lit ''ey.com'')]))"
    by auto
  with h p s show ?thesis by blast
qed

section \<open>The polling loop\<close>

lemma tool_traffic_loop: "list_all tool_traffic e \<Longrightarrow>
    list_all loop_call e \<and> filter is_get_run e = [] \<and> filter is_sleep e = []"
  by (induction e) (auto elim: tool_traffic.elims)

lemma loop_call_filters:
  "list_all loop_call e \<Longrightarrow> filter is_cancel e = [] \<and> filter is_create_thread e = []"
  by (induction e) (auto elim: loop_call.elims)

text \<open>
  What the loop adds to the trace, from any number of retries: only calls of the loop, at most
  \<open>maxRetries - retries\<close> polls, a sleep of 2000 ms before each; and when the loop is left
  with a status that still asks for polling, the retries are used up.
\<close>

lemma poll_trace:
  "poll w env headers t r status retries tr = (res, tr') \<Longrightarrow>
   \<exists>ext. tr' = tr @ ext \<and> list_all loop_call ext
        \<and> length (filter is_get_run ext) \<le> maxRetries - retries
        \<and> length (filter is_sleep ext) = length (filter is_get_run ext)
        \<and> (\<forall>st. res = Inr st \<longrightarrow>
              (st = lit ''in_progress'' \<or> st = lit ''queued'' \<or> st = lit ''requires_action'')
              \<longrightarrow> retries + length (filter is_get_run ext) \<ge> maxRetries)"
proof (induction w env headers t r status retries tr arbitrary: res tr' rule: poll.induct)
  case (1 w env headers t r status retries tr)
  show ?case
  proof (cases "(status = lit ''in_progress'' \<or> status = lit ''queued'' \<or> status = lit ''requires_action'')
                 \<and> retries < maxRetries")
    case False
    with "1.prems" have "res = Inr status" "tr' = tr"
      by (auto simp: poll.simps [of w env headers t r status retries tr])
    with False show ?thesis by auto
  next
    case True
    let ?tr0 = "tr @ [Sleep 2000]"
    let ?tr1 = "?tr0 @ [GetRun t r headers]"
    show ?thesis
    proof (cases "get_run w ?tr1")
      case (Inl e)
      with True "1.prems" have "tr' = tr @ [Sleep 2000, GetRun t r headers]" "res = Inl e"
        by (auto simp: poll.simps [of w env headers t r status retries tr] perform_def)
      with True show ?thesis by auto
    next
      case (Inr statusRes)
      then have p: "perform (get_run w) (GetRun t r headers) ?tr0 = (Inr statusRes, ?tr1)"
        by (simp add: perform_def)
      obtain hres tr2 where h: "handle_function_calls w env headers t r statusRes ?tr1 = (hres, tr2)"
        by (cases "handle_function_calls w env headers t r statusRes ?tr1")
      from handle_function_calls_trace [OF h] obtain e where e: "tr2 = ?tr1 @ e" "list_all tool_traffic e"
        by blast
      note te = tool_traffic_loop [OF e(2)]
      show ?thesis
      proof (cases hres)
        case (Inl err)
        with True "1.prems" p h have "tr' = tr2" "res = Inl err"
          by (auto simp: poll.simps [of w env headers t r status retries tr])
        with e te True show ?thesis by auto
      next
        case (Inr status')
        with True "1.prems" p h have rec: "poll w env headers t r status' (retries + 1) tr2 = (res, tr')"
          by (auto simp: poll.simps [of w env headers t r status retries tr])
        from "1.IH" [OF True p [symmetric] refl h [unfolded Inr, symmetric] refl rec]
        obtain ext where ext: "tr' = tr2 @ ext" "list_all loop_call ext"
            "length (filter is_get_run ext) \<le> maxRetries - (retries + 1)"
            "length (filter is_sleep ext) = length (filter is_get_run ext)"
            "\<forall>st. res = Inr st \<longrightarrow>
              (st = lit ''in_progress'' \<or> st = lit ''queued'' \<or> st = lit ''requires_action'')
              \<longrightarrow> retries + 1 + length (filter is_get_run ext) \<ge> maxRetries"
          by blast
        let ?ext = "[Sleep 2000, GetRun t r headers] @ e @ ext"
        have "tr' = tr @ ?ext" using ext(1) e(1) by simp
        moreover have "list_all loop_call ?ext" using ext(2) te by simp
        moreover have "length (filter is_get_run ?ext) \<le> maxRetries - retries"
          using ext(3) te True by (simp, arith)
        moreover have "length (filter is_sleep ?ext) = length (filter is_get_run ?ext)"
          using ext(4) te by simp
        moreover have "\<forall>st. res = Inr st \<longrightarrow>
              (st = lit ''in_progress'' \<or> st = lit ''queued'' \<or> st = lit ''requires_action'')
              \<longrightarrow> retries + length (filter is_get_run ?ext) \<ge> maxRetries"
          using ext(5) te by simp
        ultimately show ?thesis by blast
      qed
    qed
  qed
qed

text \<open>The stuck run: the loop polls until the retries are used up.\<close>

lemma poll_stuck:
  "maxRetries - retries = k \<Longrightarrow>
   poll stuck_world env h t r (lit ''in_progress'') retries tr
     = (Inr (lit ''in_progress''), tr @ polls k t r h)"
proof (induction k arbitrary: retries tr)
  case 0
  then show ?case by (simp add: poll.simps [of _ _ _ _ _ _ retries] polls_def)
next
  case (Suc k)
  then have lt: "retries < maxRetries" and k: "maxRetries - (retries + 1) = k" by auto
  have step: "poll stuck_world env h t r (lit ''in_progress'') retries tr
      = poll stuck_world env h t r (lit ''in_progress'') (retries + 1) (tr @ [Sleep 2000, GetRun t r h])"
    using lt
    by (simp add: poll.simps [of _ _ _ _ _ _ retries] perform_def stuck_world_def handle_function_calls_def)
  show ?case unfolding step Suc.IH [OF k] by (simp add: polls_def)
qed

text \<open>
  Claim C5. The polling loop terminates (\<open>poll\<close> is a total function: each iteration uses up
  one of the \<open>maxRetries = 200\<close> retries). Started as the handler starts it, it polls the run at
  most 200 times, sleeps once before each poll, and every sleep is \<^verbatim>\<open>setTimeout(res, 2000)\<close>,
  two seconds. When it is left through its condition, either the 200 polls are used up or
  the status asks for no more polling; the code after the loop then takes the timeout path or
  the terminal path.
\<close>

theorem poll_bounded:
  "\<exists>ext. snd (poll w env headers currentThreadId runId (lit ''in_progress'') 0 tr) = tr @ ext
        \<and> length (filter is_get_run ext) \<le> 200
        \<and> length (filter is_sleep ext) = length (filter is_get_run ext)
        \<and> (\<forall>c \<in> set ext. is_sleep c \<longrightarrow> c = Sleep 2000)
        \<and> (\<forall>st. fst (poll w env headers currentThreadId runId (lit ''in_progress'') 0 tr) = Inr st
              \<longrightarrow> length (filter is_get_run ext) = 200
                  \<or> (st \<noteq> lit ''in_progress'' \<and> st \<noteq> lit ''queued'' \<and> st \<noteq> lit ''requires_action''))"
proof -
  obtain res tr' where p: "poll w env headers currentThreadId runId (lit ''in_progress'') 0 tr = (res, tr')"
    by (cases "poll w env headers currentThreadId runId (lit ''in_progress'') 0 tr")
  from poll_trace [OF p] obtain ext where ext: "tr' = tr @ ext" "list_all loop_call ext"
      "length (filter is_get_run ext) \<le> maxRetries - 0"
      "length (filter is_sleep ext) = length (filter is_get_run ext)"
      "\<forall>st. res = Inr st \<longrightarrow>
              (st = lit ''in_progress'' \<or> st = lit ''queued'' \<or> st = lit ''requires_action'')
              \<longrightarrow> 0 + length (filter is_get_run ext) \<ge> maxRetries"
    by blast
  have sl: "\<forall>c \<in> set ext. is_sleep c \<longrightarrow> c = Sleep 2000"
    using ext(2) by (induction ext) (auto elim: is_sleep.elims)
  have "\<forall>st. res = Inr st \<longrightarrow> length (filter is_get_run ext) = 200
                  \<or> (st \<noteq> lit ''in_progress'' \<and> st \<noteq> lit ''queued'' \<and> st \<noteq> lit ''requires_action'')"
    using ext(3,5) by (auto simp: maxRetries_def)
  with p ext(1,3,4) sl show ?thesis by (auto simp: maxRetries_def)
qed

theorem poll_bounded_witness:
  "poll stuck_world demo_env demo_headers (lit ''thread_1'') (lit ''run_1'') (lit ''in_progress'') 0 []
      = (Inr (lit ''in_progress''), polls 200 (lit ''thread_1'') (lit ''run_1'') demo_headers)
   \<and> length (filter is_get_run (polls 200 (lit ''thread_1'') (lit ''run_1'') demo_headers)) = 200
   \<and> length (filter is_sleep (polls 200 (lit ''thread_1'') (lit ''run_1'') demo_headers)) = 200
   \<and> list_all (\<lambda>c. c = Sleep 2000) (filter is_sleep (polls 200 (lit ''thread_1'') (lit ''run_1'') demo_headers))"
proof -
  let ?ps = "polls 200 (lit ''thread_1'') (lit ''run_1'') demo_headers"
  have p: "poll stuck_world demo_env demo_headers (lit ''thread_1'') (lit ''run_1'') (lit ''in_progress'') 0 []
      = (Inr (lit ''in_progress''), [] @ ?ps)"
    by (rule poll_stuck) (simp add: maxRetries_def)
  from poll_bounded [of stuck_world demo_env demo_headers "lit ''thread_1''" "lit ''run_1''" "[]"]
  have b: "length (filter is_get_run ?ps) = 200"
    and s: "length (filter is_sleep ?ps) = length (filter is_get_run ?ps)"
    and a: "\<forall>c \<in> set ?ps. is_sleep c \<longrightarrow> c = Sleep 2000"
    unfolding p by simp_all
  from a have "list_all (\<lambda>c. c = Sleep 2000) (filter is_sleep ?ps)" by (simp add: list_all_iff)
  with p b s show ?thesis by simp
qed

section \<open>The handler of the chat route\<close>

subsection \<open>The paths through the handler\<close>

lemma start_run_trace:
  assumes "start_run w headers aid rq = (res, tr)"
  shows "filter is_cancel tr = []"
    and "truthy_str (req_threadId rq) = Some t \<Longrightarrow> filter is_create_thread tr = []"
    and "truthy_str (req_threadId rq) = Some t \<Longrightarrow> res = Inr (tid, rid) \<Longrightarrow> tid = t"
  using assms
  by (auto simp: start_run_def get_or_create_thread_def perform_def
           split: option.splits sum.splits prod.splits)

lemma try_block_cases:
  assumes "try_block w env (Inr rq) = (res, tr)"
  obtains
    (missing) "res = Inr (NextResponse_json (JObj [(lit ''error'', JStr (lit ''Missing OpenAI credentials''))]) 500)"
      "tr = []"
  | (start_failed) key aid e where
      "truthy_str (OPENAI_API_KEY env) = Some key" "truthy_str (OPENAI_ASSISTANT_ID env) = Some aid"
      "start_run w (build_headers key env) aid rq = (Inl e, tr)" "res = Inl e"
  | (poll_failed) key aid tid rid tr1 e where
      "truthy_str (OPENAI_API_KEY env) = Some key" "truthy_str (OPENAI_ASSISTANT_ID env) = Some aid"
      "start_run w (build_headers key env) aid rq = (Inr (tid, rid), tr1)"
      "poll w env (build_headers key env) tid rid (lit ''in_progress'') 0 tr1 = (Inl e, tr)" "res = Inl e"
  | (finished) key aid tid rid tr1 st tr2 where
      "truthy_str (OPENAI_API_KEY env) = Some key" "truthy_str (OPENAI_ASSISTANT_ID env) = Some aid"
      "start_run w (build_headers key env) aid rq = (Inr (tid, rid), tr1)"
      "poll w env (build_headers key env) tid rid (lit ''in_progress'') 0 tr1 = (Inr st, tr2)"
      "after_loop w (build_headers key env) tid rid st tr2 = (res, tr)"
proof (cases "truthy_str (OPENAI_API_KEY env)")
  case None
  with assms missing show ?thesis by (simp add: try_block_def)
next
  case key: (Some key)
  show ?thesis
  proof (cases "truthy_str (OPENAI_ASSISTANT_ID env)")
    case None
    with assms key missing show ?thesis by (simp add: try_block_def)
  next
    case aid: (Some aid)
    obtain sres tr1 where s: "start_run w (build_headers key env) aid rq = (sres, tr1)"
      by (cases "start_run w (build_headers key env) aid rq")
    show ?thesis
    proof (cases sres)
      case (Inl e)
      with assms key aid s start_failed show ?thesis by (simp add: try_block_def)
    next
      case (Inr ids)
      obtain tid rid where ids: "ids = (tid, rid)" by (cases ids)
      obtain pres tr2 where p: "poll w env (build_headers key env) tid rid (lit ''in_progress'') 0 tr1 = (pres, tr2)"
        by (cases "poll w env (build_headers key env) tid rid (lit ''in_progress'') 0 tr1")
      show ?thesis
      proof (cases pres)
        case (Inl e)
        with assms key aid s Inr ids p poll_failed show ?thesis by (simp add: try_block_def)
      next
        case st: (Inr st)
        with assms key aid s Inr ids p finished show ?thesis by (simp add: try_block_def)
      qed
    qed
  qed
qed

lemma after_loop_facts:
  assumes "after_loop w h tid rid st tr2 = (res, tr)"
  shows "\<exists>ext. tr = tr2 @ ext \<and> filter is_create_thread ext = []"
    and "res = Inr r \<Longrightarrow> res_status r \<noteq> 500
           \<and> get_prop (res_body r) (lit ''threadId'') = Inr (Some (JStr tid))"
    and "res = Inr r \<Longrightarrow> map_of (res_headers r) (lit ''Cache-Control'')
           = Some (if st = lit ''completed'' then lit ''s-maxage=120, stale-while-revalidate=300''
                   else lit ''no-cache'')"
  using assms
  by (auto simp: after_loop_def final_reply_def perform_def timeoutResponse_def headers_set_def
        NextResponse_json_def split: if_splits sum.splits prod.splits)

lemma error_500_facts:
  "res_status (error_500 e) = 500"
  "get_prop (res_body (error_500 e)) (lit ''threadId'') = Inr None"
  "get_prop (res_body (error_500 e)) (lit ''reply'') = Inr None"
  "map_of (res_headers (error_500 e)) (lit ''Cache-Control'') = Some (lit ''no-cache'')"
  by (simp_all add: error_500_def headers_set_def NextResponse_json_def)

lemma POST_of_try_block:
  "try_block w env req = (Inl e, tr) \<Longrightarrow> POST w env req = (error_500 e, tr)"
  "try_block w env req = (Inr r, tr) \<Longrightarrow> POST w env req = (r, tr)"
  by (simp_all add: POST_def error_500_def)

subsection \<open>The sample runs\<close>

lemma build_demo_headers: "build_headers (lit ''sk-test'') demo_env = demo_headers"
  by (simp add: build_headers_def demo_env_def demo_headers_def lit_def)

lemma demo_credentials:
  "truthy_str (OPENAI_API_KEY demo_env) = Some (lit ''sk-test'')"
  "truthy_str (OPENAI_ASSISTANT_ID demo_env) = Some (lit ''asst_1'')"
  by (simp_all add: demo_env_def)

lemma start_run_done_world:
  "start_run (done_world v) demo_headers (lit ''asst_1'') reuse_request
      = (Inr (lit ''thread_abc'', lit ''run_1''),
         [PostMessage (lit ''thread_abc'') (lit ''Give me an overview.'') demo_headers,
          PostRun (lit ''thread_abc'') (lit ''asst_1'') demo_headers])"
  by (simp add: start_run_def get_or_create_thread_def perform_def done_world_def stuck_world_def
        reuse_request_def)

lemma poll_done_world:
  "poll (done_world v) demo_env demo_headers (lit ''thread_abc'') (lit ''run_1'') (lit ''in_progress'') 0 tr
      = (Inr (lit ''completed''), tr @ [Sleep 2000, GetRun (lit ''thread_abc'') (lit ''run_1'') demo_headers])"
  by (simp add: poll.simps perform_def done_world_def stuck_world_def handle_function_calls_def
        maxRetries_def)

lemma POST_done_world:
  "POST (done_world v) demo_env (Inr reuse_request)
     = (\<lparr>res_status = 200,
         res_body = JObj [(lit ''reply'', JStr (str_or (Some (strip_citations v)) (lit ''No valid response.''))),
                          (lit ''threadId'', JStr (lit ''thread_abc''))],
         res_headers = [(lit ''Cache-Control'', lit ''s-maxage=120, stale-while-revalidate=300'')]\<rparr>,
        [PostMessage (lit ''thread_abc'') (lit ''Give me an overview.'') demo_headers,
         PostRun (lit ''thread_abc'') (lit ''asst_1'') demo_headers,
         Sleep 2000,
         GetRun (lit ''thread_abc'') (lit ''run_1'') demo_headers,
         GetMessages (lit ''thread_abc'') demo_headers])"
proof -
  have a: "after_loop (done_world v) demo_headers (lit ''thread_abc'') (lit ''run_1'') (lit ''completed'') tr
      = (Inr \<lparr>res_status = 200,
         res_body = JObj [(lit ''reply'', JStr (str_or (Some (strip_citations v)) (lit ''No valid response.''))),
                          (lit ''threadId'', JStr (lit ''thread_abc''))],
         res_headers = [(lit ''Cache-Control'', lit ''s-maxage=120, stale-while-revalidate=300'')]\<rparr>,
         tr @ [GetMessages (lit ''thread_abc'') demo_headers])" for tr
    by (simp add: after_loop_def final_reply_def perform_def done_world_def stuck_world_def
          completed_reply_def headers_set_def NextResponse_json_def)
  show ?thesis
    by (simp add: POST_def try_block_def demo_credentials build_demo_headers
          start_run_done_world poll_done_world a)
qed

subsection \<open>The timeout\<close>

text \<open>
  Claim C1. When the polling loop is left through its condition with a status that is none of
  \<^verbatim>\<open>completed\<close>, \<^verbatim>\<open>failed\<close> and \<^verbatim>\<open>cancelled\<close> (the retries are used up, or the service
  reports some other status), the handler issues the cancel call, and that is the only cancel
  call of the whole request; whatever the cancel call returns, also a failure, the response
  is the timeout response: status 504, the thread id in the body, \<^verbatim>\<open>Cache-Control: no-cache\<close>,
  and no reply of a completed run. (An exception thrown inside the loop does not reach the code
  after the loop: that is the error path of the \<^verbatim>\<open>catch\<close> block.)
\<close>

theorem timeout_cancels_once:
  assumes "truthy_str (OPENAI_API_KEY env) = Some key"
    and "truthy_str (OPENAI_ASSISTANT_ID env) = Some aid"
    and "start_run w (build_headers key env) aid rq = (Inr (tid, rid), tr1)"
    and "poll w env (build_headers key env) tid rid (lit ''in_progress'') 0 tr1 = (Inr st, tr2)"
    and "st \<noteq> lit ''completed''" and "st \<noteq> lit ''failed''" and "st \<noteq> lit ''cancelled''"
  shows "POST w env (Inr rq) = (timeoutResponse tid, tr2 @ [PostCancel tid rid (build_headers key env)])
       \<and> filter is_cancel (snd (POST w env (Inr rq))) = [PostCancel tid rid (build_headers key env)]
       \<and> res_status (fst (POST w env (Inr rq))) = 504
       \<and> get_prop (res_body (fst (POST w env (Inr rq)))) (lit ''threadId'') = Inr (Some (JStr tid))
       \<and> get_prop (res_body (fst (POST w env (Inr rq)))) (lit ''reply'') = Inr None
       \<and> map_of (res_headers (fst (POST w env (Inr rq)))) (lit ''Cache-Control'') = Some (lit ''no-cache'')"
proof -
  let ?h = "build_headers key env"
  have post: "POST w env (Inr rq) = (timeoutResponse tid, tr2 @ [PostCancel tid rid ?h])"
    using assms by (simp add: POST_def try_block_def after_loop_def perform_def)
  have c1: "filter is_cancel tr1 = []" by (rule start_run_trace(1) [OF assms(3)])
  from poll_trace [OF assms(4)] obtain ext where ext: "tr2 = tr1 @ ext" "list_all loop_call ext" by blast
  from loop_call_filters [OF ext(2)] have c2: "filter is_cancel ext = []" by simp
  have once: "filter is_cancel (tr2 @ [PostCancel tid rid ?h]) = [PostCancel tid rid ?h]"
    using c1 c2 ext(1) by simp
  show ?thesis
    unfolding post using once
    by (simp add: timeoutResponse_def headers_set_def NextResponse_json_def)
qed

theorem timeout_cancels_once_witness:
  "POST stuck_world demo_env (Inr demo_request)
     = (timeoutResponse (lit ''thread_new''),
        [PostThreads demo_headers,
         PostMessage (lit ''thread_new'') (lit ''Give me an overview.'') demo_headers,
         PostRun (lit ''thread_new'') (lit ''asst_1'') demo_headers]
        @ polls 200 (lit ''thread_new'') (lit ''run_1'') demo_headers
        @ [PostCancel (lit ''thread_new'') (lit ''run_1'') demo_headers])
   \<and> post_cancel stuck_world (snd (POST stuck_world demo_env (Inr demo_request)))
        = Inl (ErrorObj (lit ''Network Error'') None)
   \<and> length (filter is_cancel (snd (POST stuck_world demo_env (Inr demo_request)))) = 1
   \<and> res_status (fst (POST stuck_world demo_env (Inr demo_request))) = 504"
proof -
  let ?h = "build_headers (lit ''sk-test'') demo_env"
  let ?tr1 = "[PostThreads ?h, PostMessage (lit ''thread_new'') (lit ''Give me an overview.'') ?h,
               PostRun (lit ''thread_new'') (lit ''asst_1'') ?h]"
  have s: "start_run stuck_world ?h (lit ''asst_1'') demo_request
             = (Inr (lit ''thread_new'', lit ''run_1''), ?tr1)"
    by (simp add: start_run_def get_or_create_thread_def perform_def stuck_world_def demo_request_def)
  have p: "poll stuck_world demo_env ?h (lit ''thread_new'') (lit ''run_1'') (lit ''in_progress'') 0 ?tr1
             = (Inr (lit ''in_progress''), ?tr1 @ polls 200 (lit ''thread_new'') (lit ''run_1'') ?h)"
    by (rule poll_stuck) (simp add: maxRetries_def)
  have n: "lit ''in_progress'' \<noteq> lit ''completed''" "lit ''in_progress'' \<noteq> lit ''failed''"
          "lit ''in_progress'' \<noteq> lit ''cancelled''" by simp_all
  note t = timeout_cancels_once [OF demo_credentials s p n]
  have post: "POST stuck_world demo_env (Inr demo_request)
      = (timeoutResponse (lit ''thread_new''),
         ?tr1 @ polls 200 (lit ''thread_new'') (lit ''run_1'') ?h
         @ [PostCancel (lit ''thread_new'') (lit ''run_1'') ?h])"
    using conjunct1 [OF t] by (simp only: append_assoc)
  have c: "post_cancel stuck_world tr = Inl (ErrorObj (lit ''Network Error'') None)" for tr
    by (simp add: stuck_world_def)
  have one: "length (filter is_cancel (snd (POST stuck_world demo_env (Inr demo_request)))) = 1"
    using conjunct1 [OF conjunct2 [OF t]] by simp
  have st: "res_status (fst (POST stuck_world demo_env (Inr demo_request))) = 504"
    using conjunct1 [OF conjunct2 [OF conjunct2 [OF t]]] by simp
  from post [unfolded build_demo_headers] c one st show ?thesis by (intro conjI)
qed

subsection \<open>Reusing a session\<close>

text \<open>
  Claim C4, as the code has it. When the request supplies a prior \<^verbatim>\<open>threadId\<close> (a string that
  is not empty: the route takes an empty or absent \<^verbatim>\<open>threadId\<close> for no session), the handler
  makes no session-creation call, and every response that carries a \<^verbatim>\<open>threadId\<close>, which are
  the 200 replies and the 504 timeout, carries the supplied one unchanged. The 500 responses
  (missing credentials, and every error of the remote service) carry no \<^verbatim>\<open>threadId\<close>.
\<close>

theorem session_reuse:
  assumes "req_threadId rq = Some t" and "t \<noteq> []"
  shows "filter is_create_thread (snd (POST w env (Inr rq))) = []
       \<and> ((res_status (fst (POST w env (Inr rq))) = 500
            \<and> get_prop (res_body (fst (POST w env (Inr rq)))) (lit ''threadId'') = Inr None)
          \<or> (res_status (fst (POST w env (Inr rq))) \<noteq> 500
            \<and> get_prop (res_body (fst (POST w env (Inr rq)))) (lit ''threadId'') = Inr (Some (JStr t))))"
proof -
  have tt: "truthy_str (req_threadId rq) = Some t" using assms by simp
  obtain res tr where tb: "try_block w env (Inr rq) = (res, tr)"
    by (cases "try_block w env (Inr rq)")
  from tb show ?thesis
  proof (cases rule: try_block_cases)
    case missing
    with tb show ?thesis by (simp add: POST_def NextResponse_json_def)
  next
    case (start_failed key aid e)
    from start_run_trace(2) [OF start_failed(3) tt] have "filter is_create_thread tr = []" .
    with tb start_failed(4) show ?thesis by (simp add: POST_of_try_block error_500_facts)
  next
    case (poll_failed key aid tid rid tr1 e)
    from start_run_trace(2) [OF poll_failed(3) tt] have a: "filter is_create_thread tr1 = []" .
    from poll_trace [OF poll_failed(4)] obtain ext where "tr = tr1 @ ext" "list_all loop_call ext" by blast
    with a loop_call_filters have "filter is_create_thread tr = []" by simp
    with tb poll_failed(5) show ?thesis by (simp add: POST_of_try_block error_500_facts)
  next
    case (finished key aid tid rid tr1 st tr2)
    from start_run_trace(2) [OF finished(3) tt] have a: "filter is_create_thread tr1 = []" .
    from start_run_trace(3) [OF finished(3) tt refl] have tid: "tid = t" .
    from poll_trace [OF finished(4)] obtain ext where "tr2 = tr1 @ ext" "list_all loop_call ext" by blast
    with a loop_call_filters have b: "filter is_create_thread tr2 = []" by simp
    from after_loop_facts(1) [OF finished(5)] b have c: "filter is_create_thread tr = []" by auto
    show ?thesis
    proof (cases res)
      case (Inl e)
      with tb c show ?thesis by (simp add: POST_of_try_block error_500_facts)
    next
      case (Inr r)
      from after_loop_facts(2) [OF finished(5) Inr] tid tb Inr c show ?thesis
        by (simp add: POST_of_try_block)
    qed
  qed
qed

theorem session_reuse_witness:
  "req_threadId reuse_request = Some (lit ''thread_abc'')
   \<and> lit ''thread_abc'' \<noteq> []
   \<and> filter is_create_thread (snd (POST (done_world clean_text) demo_env (Inr reuse_request))) = []
   \<and> res_status (fst (POST (done_world clean_text) demo_env (Inr reuse_request))) = 200
   \<and> get_prop (res_body (fst (POST (done_world clean_text) demo_env (Inr reuse_request)))) (lit ''threadId'')
       = Inr (Some (JStr (lit ''thread_abc'')))"
proof -
  have a: "req_threadId reuse_request = Some (lit ''thread_abc'')" by (simp add: reuse_request_def)
  have b: "lit ''thread_abc'' \<noteq> []" by simp
  have st: "res_status (fst (POST (done_world clean_text) demo_env (Inr reuse_request))) = 200"
    by (simp add: POST_done_world)
  from session_reuse [OF a b, of "done_world clean_text" demo_env] st a b show ?thesis by simp
qed

text \<open>
  The claim as it is written fails on the error path: the request supplies the thread
  \<^verbatim>\<open>thread_abc\<close>, the remote service rejects the user message, and the response is the 500
  of the \<^verbatim>\<open>catch\<close> block, whose body has the error message and no \<^verbatim>\<open>threadId\<close>.
\<close>

theorem error_response_without_thread_id_counterexample:
  "POST broken_world demo_env (Inr reuse_request)
     = (\<lparr>res_status = 500,
         res_body = JObj [(lit ''error'', JStr (lit ''No thread found with id thread_abc.''))],
         res_headers = [(lit ''Cache-Control'', lit ''no-cache'')]\<rparr>,
        [PostMessage (lit ''thread_abc'') (lit ''Give me an overview.'') demo_headers])
   \<and> get_prop (res_body (fst (POST broken_world demo_env (Inr reuse_request)))) (lit ''threadId'') = Inr None"
proof -
  have s: "start_run broken_world demo_headers (lit ''asst_1'') reuse_request
      = (Inl (ErrorObj (lit ''Request failed with status code 404'')
                (Some (lit ''No thread found with id thread_abc.''))),
         [PostMessage (lit ''thread_abc'') (lit ''Give me an overview.'') demo_headers])"
    by (simp add: start_run_def get_or_create_thread_def perform_def broken_world_def stuck_world_def
          reuse_request_def)
  show ?thesis
    by (simp add: POST_def try_block_def demo_credentials build_demo_headers s headers_set_def
          NextResponse_json_def)
qed

subsection \<open>The cache directive\<close>

text \<open>
  Claim C6 at the input where the code departs from it. With \<^verbatim>\<open>OPENAI_API_KEY\<close> unset the
  handler returns at line 27: the response is the 500 \<^verbatim>\<open>Missing OpenAI credentials\<close>, no call
  is issued, and no header is set on the response, so it has no \<^verbatim>\<open>Cache-Control: no-cache\<close>.
\<close>

theorem missing_credentials_response_sets_no_header:
  "POST w no_key_env (Inr rq)
     = (\<lparr>res_status = 500,
         res_body = JObj [(lit ''error'', JStr (lit ''Missing OpenAI credentials''))],
         res_headers = []\<rparr>, [])
   \<and> map_of (res_headers (fst (POST w no_key_env (Inr rq)))) (lit ''Cache-Control'') = None"
  by (simp add: POST_def try_block_def no_key_env_def NextResponse_json_def)

text \<open>
  On every other path the directive is as the comments of the route say: the completed reply
  is cacheable, and the failed, cancelled, timeout and error responses are \<^verbatim>\<open>no-cache\<close>.
\<close>

lemma cache_control_of_the_other_paths:
  assumes "POST w env req = (r, tr)"
  shows "(map_of (res_headers r) (lit ''Cache-Control'') = Some (lit ''s-maxage=120, stale-while-revalidate=300'')
            \<and> res_status r = 200)
       \<or> map_of (res_headers r) (lit ''Cache-Control'') = Some (lit ''no-cache'')
       \<or> (r = NextResponse_json (JObj [(lit ''error'', JStr (lit ''Missing OpenAI credentials''))]) 500
            \<and> tr = [])"
proof (cases req)
  case (Inl e)
  with assms show ?thesis by (auto simp: POST_def try_block_def headers_set_def NextResponse_json_def)
next
  case (Inr rq)
  obtain res tr0 where tb: "try_block w env (Inr rq) = (res, tr0)"
    by (cases "try_block w env (Inr rq)")
  from tb show ?thesis
  proof (cases rule: try_block_cases)
    case missing
    with tb assms Inr show ?thesis by (auto simp: POST_def)
  next
    case (start_failed key aid e)
    with tb assms Inr show ?thesis by (auto simp: POST_of_try_block error_500_facts)
  next
    case (poll_failed key aid tid rid tr1 e)
    with tb assms Inr show ?thesis by (auto simp: POST_of_try_block error_500_facts)
  next
    case (finished key aid tid rid tr1 st tr2)
    show ?thesis
    proof (cases res)
      case (Inl e)
      with tb assms Inr show ?thesis by (auto simp: POST_of_try_block error_500_facts)
    next
      case r: (Inr r')
      from after_loop_facts(3) [OF finished(5) r] tb assms Inr r
      have h: "map_of (res_headers r) (lit ''Cache-Control'')
                 = Some (if st = lit ''completed'' then lit ''s-maxage=120, stale-while-revalidate=300''
                         else lit ''no-cache'')"
        by (auto simp: POST_of_try_block)
      have "st = lit ''completed'' \<Longrightarrow> res_status r = 200"
        using finished(5) tb assms Inr r
        by (auto simp: POST_of_try_block after_loop_def final_reply_def perform_def headers_set_def
              NextResponse_json_def split: sum.splits prod.splits)
      with h show ?thesis by auto
    qed
  qed
qed

subsection \<open>Stripping the citation markers\<close>

lemma match_at_head: "match_at (c # cs) = Some r \<Longrightarrow> c = LB"
  by (auto simp: match_at_def split: if_splits)

lemma has_marker_LB: "has_marker s \<Longrightarrow> LB \<in> set s"
  by (induction s) (auto dest: match_at_head)

lemma in_marker_iff:
  "in_marker s k \<longleftrightarrow> (\<exists>i r. i \<le> k \<and> match_at (drop i s) = Some r \<and> k < length s - length r)"
proof
  assume "in_marker s k"
  then have "\<exists>i \<in> set [0..<Suc k].
      case match_at (drop i s) of None \<Rightarrow> False | Some r \<Rightarrow> k < length s - length r"
    unfolding in_marker_def list_ex_iff .
  then obtain i where m: "i \<in> set [0..<Suc k]"
    and c: "case match_at (drop i s) of None \<Rightarrow> False | Some r \<Rightarrow> k < length s - length r"
    by blast
  from m have i: "i \<le> k" by auto
  from c obtain r where "match_at (drop i s) = Some r" "k < length s - length r"
    by (cases "match_at (drop i s)") auto
  with i show "\<exists>i r. i \<le> k \<and> match_at (drop i s) = Some r \<and> k < length s - length r"
    by auto
next
  assume "\<exists>i r. i \<le> k \<and> match_at (drop i s) = Some r \<and> k < length s - length r"
  then obtain i r where "i \<le> k" "match_at (drop i s) = Some r" "k < length s - length r" by blast
  then have "i \<in> set [0..<Suc k]"
    and "case match_at (drop i s) of None \<Rightarrow> False | Some r \<Rightarrow> k < length s - length r"
    by auto
  then show "in_marker s k" unfolding in_marker_def list_ex_iff by blast
qed

lemma match_at_shape:
  assumes "match_at s = Some r"
  shows "\<exists>p. s = p @ RB # r \<and> RB \<notin> set p"
proof -
  from assms obtain c r0 c1 r1 c2 r2 c3
    where s: "s = c # r0" and c: "c = LB"
      and a: "dropWhile is_digit r0 = c1 # r1" and c1: "c1 = COLON"
      and b: "dropWhile is_digit r1 = c2 # r2" and c2: "c2 = DAGGER"
      and e: "dropWhile (\<lambda>x. x \<noteq> RB) r2 = c3 # r"
    by (auto simp: match_at_def split: list.splits if_splits)
  have "dropWhile (\<lambda>x. x \<noteq> RB) r2 \<noteq> []" using e by simp
  from hd_dropWhile [OF this] e have c3: "c3 = RB" by simp
  have r0: "takeWhile is_digit r0 @ c1 # r1 = r0" using a takeWhile_dropWhile_id [of is_digit r0] by simp
  have r1: "takeWhile is_digit r1 @ c2 # r2 = r1" using b takeWhile_dropWhile_id [of is_digit r1] by simp
  have r2: "takeWhile (\<lambda>x. x \<noteq> RB) r2 @ RB # r = r2" using e c3 takeWhile_dropWhile_id [of "\<lambda>x. x \<noteq> RB" r2] by simp
  have d: "RB \<notin> set (takeWhile is_digit xs)" for xs
    by (auto dest!: set_takeWhileD simp: is_digit_def RB_def)
  have n: "RB \<notin> set (takeWhile (\<lambda>x. x \<noteq> RB) xs)" for xs
    by (auto dest!: set_takeWhileD)
  let ?p = "c # takeWhile is_digit r0 @ c1 # takeWhile is_digit r1 @ c2 # takeWhile (\<lambda>x. x \<noteq> RB) r2"
  have "s = ?p @ RB # r" by (simp add: s r0 r1 r2)
  moreover have "RB \<notin> set ?p" using d n c c1 c2 by (simp add: LB_def RB_def COLON_def DAGGER_def)
  ultimately show ?thesis by blast
qed

lemma first_split_unique:
  "x \<notin> set xs \<Longrightarrow> x \<notin> set xs' \<Longrightarrow> xs @ x # ys = xs' @ x # ys' \<Longrightarrow> xs = xs' \<and> ys = ys'"
proof (induction xs arbitrary: xs')
  case Nil
  then show ?case by (cases xs') auto
next
  case (Cons a xs)
  then show ?case by (cases xs') auto
qed

lemma match_at_nested:
  assumes "match_at s = Some r" and "i < length s - length r" and "match_at (drop i s) = Some r'"
  shows "r' = r"
proof -
  from match_at_shape [OF assms(1)] obtain p where p: "s = p @ RB # r" "RB \<notin> set p" by blast
  from match_at_shape [OF assms(3)] obtain q where q: "drop i s = q @ RB # r'" "RB \<notin> set q" by blast
  from p(1) assms(2) have "i \<le> length p" by simp
  with p(1) have "drop i s = drop i p @ RB # r" by simp
  with q(1) have eq: "q @ RB # r' = drop i p @ RB # r" by simp
  have nd: "RB \<notin> set (drop i p)" using p(2) by (meson in_set_dropD)
  from first_split_unique [OF q(2) nd eq] show ?thesis by simp
qed

lemma match_at_split:
  assumes "match_at s = Some r"
  shows "\<exists>p. s = p @ r \<and> length p = length s - length r"
proof -
  from match_at_shape [OF assms] obtain p where "s = p @ RB # r" by blast
  then have "s = (p @ [RB]) @ r \<and> length (p @ [RB]) = length s - length r" by simp
  then show ?thesis by blast
qed

lemma in_marker_before:
  assumes "match_at s = Some r" and "k < length s - length r"
  shows "in_marker s k"
  using assms by (auto simp: in_marker_iff intro!: exI [of _ 0])

lemma in_marker_after:
  assumes "match_at s = Some r"
  shows "in_marker s (k + (length s - length r)) \<longleftrightarrow> in_marker r k"
proof -
  let ?n = "length s - length r"
  from match_at_split [OF assms] obtain p where p: "s = p @ r" "length p = ?n" by blast
  have len: "length s = ?n + length r" using p by simp
  have dr: "drop (j + ?n) s = drop j r" for j using p by simp
  show ?thesis
  proof
    assume "in_marker s (k + ?n)"
    then obtain i r' where i: "i \<le> k + ?n" "match_at (drop i s) = Some r'" "k + ?n < length s - length r'"
      by (auto simp: in_marker_iff)
    have "\<not> i < ?n"
    proof
      assume "i < ?n"
      from match_at_nested [OF assms this i(2)] i(3) show False by simp
    qed
    define j where "j = i - ?n"
    with \<open>\<not> i < ?n\<close> have j: "i = j + ?n" by simp
    with i dr [of j] len have "j \<le> k" "match_at (drop j r) = Some r'" "k < length r - length r'"
      by auto
    then show "in_marker r k" by (auto simp: in_marker_iff)
  next
    assume "in_marker r k"
    then obtain j r' where j: "j \<le> k" "match_at (drop j r) = Some r'" "k < length r - length r'"
      by (auto simp: in_marker_iff)
    with dr [of j] len have "j + ?n \<le> k + ?n" "match_at (drop (j + ?n) s) = Some r'"
        "k + ?n < length s - length r'"
      by auto
    then show "in_marker s (k + ?n)" unfolding in_marker_iff by blast
  qed
qed

lemma in_marker_Cons:
  assumes "match_at (c # cs) = None"
  shows "\<not> in_marker (c # cs) 0" and "in_marker (c # cs) (Suc k) \<longleftrightarrow> in_marker cs k"
proof -
  show "\<not> in_marker (c # cs) 0" using assms by (simp add: in_marker_iff)
  show "in_marker (c # cs) (Suc k) \<longleftrightarrow> in_marker cs k"
  proof
    assume "in_marker (c # cs) (Suc k)"
    then obtain i r where i: "i \<le> Suc k" "match_at (drop i (c # cs)) = Some r"
        "Suc k < length (c # cs) - length r"
      by (auto simp: in_marker_iff)
    from i(2) assms obtain j where j: "i = Suc j" by (cases i) auto
    with i have "j \<le> k" "match_at (drop j cs) = Some r" "k < length cs - length r" by auto
    then show "in_marker cs k" by (auto simp: in_marker_iff)
  next
    assume "in_marker cs k"
    then obtain j r where j: "j \<le> k" "match_at (drop j cs) = Some r" "k < length cs - length r"
      by (auto simp: in_marker_iff)
    then have "Suc j \<le> Suc k" "match_at (drop (Suc j) (c # cs)) = Some r"
        "Suc k < length (c # cs) - length r"
      by auto
    then show "in_marker (c # cs) (Suc k)" unfolding in_marker_iff by blast
  qed
qed

lemma strip_citations_removes_the_markers:
  "strip_citations s = nths s {k. \<not> in_marker s k}"
proof (induction s rule: strip_citations.induct)
  case 1
  show ?case by simp
next
  case (2 c cs)
  show ?case
  proof (cases "match_at (c # cs)")
    case None
    from in_marker_Cons [OF None] "2.IH"(1) [OF None] None show ?thesis
      by (simp add: nths_Cons)
  next
    case (Some rest)
    let ?n = "length (c # cs) - length rest"
    from match_at_split [OF Some] obtain p where p: "c # cs = p @ rest" "length p = ?n" by blast
    have "set (nths p {k. \<not> in_marker (c # cs) k}) = {}"
      using in_marker_before [OF Some] p(2) by (auto simp: set_nths)
    then have a: "nths p {k. \<not> in_marker (c # cs) k} = []" by simp
    have b: "{j. j + length p \<in> {k. \<not> in_marker (c # cs) k}} = {k. \<not> in_marker rest k}"
      using in_marker_after [OF Some] p(2) by simp
    have "nths (c # cs) {k. \<not> in_marker (c # cs) k} = nths rest {k. \<not> in_marker rest k}"
      unfolding p(1) nths_append using a b p(1) by simp
    with "2.IH"(2) [OF Some] Some show ?thesis by simp
  qed
qed

lemma lb_opens_marker_suffix: "lb_opens_marker (p @ r) \<Longrightarrow> lb_opens_marker r"
  by (induction p) auto

lemma strip_no_LB: "lb_opens_marker s \<Longrightarrow> LB \<notin> set (strip_citations s)"
proof (induction s rule: strip_citations.induct)
  case 1
  then show ?case by simp
next
  case (2 c cs)
  show ?case
  proof (cases "match_at (c # cs)")
    case None
    with "2.prems" have c: "c \<noteq> LB" and cs: "lb_opens_marker cs" by (auto split: if_splits)
    from "2.IH"(1) [OF None cs] c None show ?thesis by simp
  next
    case (Some rest)
    from match_at_split [OF Some] obtain p where "c # cs = p @ rest" by blast
    with "2.prems" have "lb_opens_marker rest" by (metis lb_opens_marker_suffix)
    from "2.IH"(2) [OF Some this] Some show ?thesis by simp
  qed
qed

lemma strip_nested: "strip_citations nested_text = [12304, 49, 58, 50, 8224, 121, 12305]"
  by (simp add: nested_text_def match_at_def LB_def RB_def DAGGER_def COLON_def is_digit_def)

lemma has_marker_stripped: "has_marker [12304, 49, 58, 50, 8224, 121, 12305]"
  by (simp add: match_at_def LB_def RB_def DAGGER_def COLON_def is_digit_def)

lemma strip_clean: "strip_citations clean_text = lit ''AI adoption rose.''"
  by (simp add: clean_text_def lit_def match_at_def LB_def RB_def DAGGER_def COLON_def is_digit_def)

lemma clean_text_ok: "lb_opens_marker clean_text"
  by (simp add: clean_text_def lit_def match_at_def LB_def RB_def DAGGER_def COLON_def is_digit_def)

text \<open>
  Claim C7, as the code has it. For a completed run whose first assistant message in the
  message list starts with a text part \<open>v\<close>, the reply is \<open>v\<close> without the code units of every occurrence of the
  citation pattern in \<open>v\<close> (all occurrences of the raw text are stripped), or the text
  \<^verbatim>\<open>No valid response.\<close> when nothing is left. When every opening bracket of \<open>v\<close> starts
  a marker, the reply has no opening bracket and so no marker. The replacement is one pass
  over \<open>v\<close>: a marker that only comes into being when the text around a removed marker joins
  is not removed.
\<close>

theorem completed_reply_markers_removed:
  assumes "truthy_str (OPENAI_API_KEY env) = Some key"
    and "truthy_str (OPENAI_ASSISTANT_ID env) = Some aid"
    and "start_run w (build_headers key env) aid rq = (Inr (tid, rid), tr1)"
    and "poll w env (build_headers key env) tid rid (lit ''in_progress'') 0 tr1 = (Inr (lit ''completed''), tr2)"
    and "get_messages w (tr2 @ [GetMessages tid (build_headers key env)]) = Inr msgs"
    and "find (\<lambda>m. msg_role m = lit ''assistant'') msgs = Some m"
    and "msg_content m = Some v # parts"
  shows "fst (POST w env (Inr rq))
           = \<lparr>res_status = 200,
               res_body = JObj [(lit ''reply'',
                                 JStr (str_or (Some (nths v {k. \<not> in_marker v k})) (lit ''No valid response.''))),
                                (lit ''threadId'', JStr tid)],
               res_headers = [(lit ''Cache-Control'', lit ''s-maxage=120, stale-while-revalidate=300'')]\<rparr>
       \<and> (lb_opens_marker v
            \<longrightarrow> \<not> has_marker (str_or (Some (nths v {k. \<not> in_marker v k})) (lit ''No valid response.'')))"
proof -
  have reply: "completed_reply msgs = str_or (Some (strip_citations v)) (lit ''No valid response.'')"
    using assms(6,7) by (simp add: completed_reply_def)
  have post: "fst (POST w env (Inr rq))
           = \<lparr>res_status = 200,
               res_body = JObj [(lit ''reply'', JStr (completed_reply msgs)), (lit ''threadId'', JStr tid)],
               res_headers = [(lit ''Cache-Control'', lit ''s-maxage=120, stale-while-revalidate=300'')]\<rparr>"
    using assms(1-5)
    by (simp add: POST_def try_block_def after_loop_def final_reply_def perform_def headers_set_def
          NextResponse_json_def)
  have "\<not> has_marker (str_or (Some (strip_citations v)) (lit ''No valid response.''))"
    if "lb_opens_marker v"
  proof -
    from strip_no_LB [OF that] lit_no_LB [of "''No valid response.''"]
    have "LB \<notin> set (str_or (Some (strip_citations v)) (lit ''No valid response.''))"
      by (simp del: lit_eq_Nil)
    then show ?thesis using has_marker_LB by blast
  qed
  with post reply show ?thesis
    by (simp add: strip_citations_removes_the_markers del: lit_eq_Nil)
qed

theorem completed_reply_markers_removed_witness:
  "fst (POST (done_world clean_text) demo_env (Inr reuse_request))
     = \<lparr>res_status = 200,
         res_body = JObj [(lit ''reply'', JStr (lit ''AI adoption rose.'')),
                          (lit ''threadId'', JStr (lit ''thread_abc''))],
         res_headers = [(lit ''Cache-Control'', lit ''s-maxage=120, stale-while-revalidate=300'')]\<rparr>
   \<and> nths clean_text {k. \<not> in_marker clean_text k} = lit ''AI adoption rose.''
   \<and> lb_opens_marker clean_text
   \<and> \<not> has_marker (lit ''AI adoption rose.'')"
proof -
  let ?m = "\<lparr>msg_role = lit ''assistant'', msg_content = [Some clean_text]\<rparr>"
  let ?msgs = "[?m, \<lparr>msg_role = lit ''user'', msg_content = [Some (lit ''Give me an overview.'')]\<rparr>]"
  have g: "get_messages (done_world clean_text) tr = Inr ?msgs" for tr
    by (simp add: done_world_def stuck_world_def)
  have f: "find (\<lambda>m. msg_role m = lit ''assistant'') ?msgs = Some ?m" by simp
  have c: "msg_content ?m = Some clean_text # []" by simp
  have n: "nths clean_text {k. \<not> in_marker clean_text k} = lit ''AI adoption rose.''"
    using strip_citations_removes_the_markers [of clean_text] strip_clean by simp
  from completed_reply_markers_removed [OF demo_credentials
      start_run_done_world [of clean_text, folded build_demo_headers]
      poll_done_world [of clean_text _, folded build_demo_headers] g f c]
    clean_text_ok n
  show ?thesis by simp
qed

text \<open>
  The claim as it is written fails: for the assistant text \<open>nested_text\<close> the one marker of
  the text is removed, the text before and behind it joins to \<^verbatim>\<open><LB>1:2<DAGGER>y<RB>\<close>, and
  the reply of the completed run is that marker.
\<close>

theorem reply_keeps_a_marker_counterexample:
  "POST (done_world nested_text) demo_env (Inr reuse_request)
     = (\<lparr>res_status = 200,
         res_body = JObj [(lit ''reply'', JStr [12304, 49, 58, 50, 8224, 121, 12305]),
                          (lit ''threadId'', JStr (lit ''thread_abc''))],
         res_headers = [(lit ''Cache-Control'', lit ''s-maxage=120, stale-while-revalidate=300'')]\<rparr>,
        [PostMessage (lit ''thread_abc'') (lit ''Give me an overview.'') demo_headers,
         PostRun (lit ''thread_abc'') (lit ''asst_1'') demo_headers,
         Sleep 2000,
         GetRun (lit ''thread_abc'') (lit ''run_1'') demo_headers,
         GetMessages (lit ''thread_abc'') demo_headers])
   \<and> has_marker [12304, 49, 58, 50, 8224, 121, 12305]"
  by (simp only: POST_done_world strip_nested has_marker_stripped) simp

section \<open>The request of the search route to the provider\<close>

lemma tavily_result_trace: "snd (tavily_result response tr) = tr"
  by (simp add: tavily_result_def Let_def split: sum.splits)

lemma search_catch_trace: "snd (search_catch r) = snd r"
  by (simp add: search_catch_def split: prod.splits sum.splits)

text \<open>
  The first file: every request to the provider has \<^verbatim>\<open>include_answer: true\<close>, and has the
  field \<^verbatim>\<open>include_domains\<close> exactly when the supplied list is not empty.
\<close>

lemma first_search_route_request:
  assumes "FetchTavily body \<in> set (snd (search_POST w env (Inr rq)))"
  shows "get_prop body (lit ''include_answer'') = Inr (Some (JBool True))"
    and "get_prop body (lit ''include_domains'') = Inr None
           \<longleftrightarrow> (sr_include_domains rq = None \<or> sr_include_domains rq = Some [])"
    and "\<forall>ds. sr_include_domains rq = Some ds \<longrightarrow> ds \<noteq> []
           \<longrightarrow> get_prop body (lit ''include_domains'') = Inr (Some (JArr ds))"
  using assms
  by (auto simp: search_POST_def search_catch_trace tavily_result_trace perform_def tavilyRequest_def
        Let_def split: option.splits if_splits sum.splits prod.splits)

text \<open>The second file sets the flag as well, and always sends the field.\<close>

lemma second_search_route_request:
  assumes "FetchTavily body \<in> set (snd (search_POST_second w env (Inr rq)))"
  shows "get_prop body (lit ''include_answer'') = Inr (Some (JBool True))"
    and "get_prop body (lit ''include_domains'') \<noteq> Inr None"
  using assms
  by (auto simp: search_POST_second_def search_catch_trace tavily_result_trace perform_def
        Let_def split: option.splits if_splits sum.splits prod.splits)

text \<open>
  Claim C9 at the inputs where the second file departs from it. Given an empty
  \<^verbatim>\<open>include_domains\<close>, the second file sends \<^verbatim>\<open>include_domains: []\<close> to the provider; given
  none, it sends \<^verbatim>\<open>include_domains: ["ey.com"]\<close>. In both cases the supplied list is not a
  non-empty list, and the claim has the field left out.
\<close>

theorem second_search_route_always_sends_include_domains:
  "snd (search_POST_second w demo_env (Inr empty_domains_request))
     = [FetchTavily (JObj [(lit ''api_key'', JStr (lit ''tvly-test'')),
                           (lit ''query'', JStr (lit ''AI adoption Jamaica'')),
                           (lit ''max_results'', JNum 3),
                           (lit ''include_answer'', JBool True),
                           (lit ''include_raw_content'', JBool False),
                           (lit ''include_domains'', JArr [])])]
   \<and> snd (search_POST_second w demo_env (Inr no_domains_request))
     = [FetchTavily (JObj [(lit ''api_key'', JStr (lit ''tvly-test'')),
                           (lit ''query'', JStr (lit ''AI adoption Jamaica'')),
                           (lit ''max_results'', JNum 3),
                           (lit ''include_answer'', JBool True),
                           (lit ''include_raw_content'', JBool False),
                           (lit ''include_domains'', JArr [JStr (lit ''ey.com'')])])]"
  by (simp add: search_POST_second_def search_catch_def tavily_result_def perform_def demo_env_def
        empty_domains_request_def no_domains_request_def Let_def
        split: sum.splits prod.splits)

end
